theory Spec2Isabelle
  imports Complex_Main
begin

section \<open>Data model\<close>

text \<open>
  The component \<^verbatim>\<open>src/components/AddressAutocomplete.tsx\<close> is embedded shallowly.
  JavaScript strings are \<open>string\<close>, JavaScript numbers that are only passed through
  (coordinates, never \<^verbatim>\<open>NaN\<close>) are \<open>real\<close>, an optional property is an
  \<open>option\<close>, a rejected promise is the \<open>Inl\<close> branch of a sum.
\<close>

record AddressType =
  address1 :: string
  address2 :: string
  formattedAddress :: string
  city :: string
  region :: string
  postalCode :: string
  country :: string
  lat :: real
  lng :: real

text \<open>\<^verbatim>\<open>google.maps.GeocoderAddressComponent\<close>: the three properties the code reads.\<close>

record GeocoderAddressComponent =
  long_name :: string
  short_name :: string
  types :: "string list"

text \<open>The third parameter of \<^verbatim>\<open>getAddressComponent\<close>: \<^verbatim>\<open>'long_name' | 'short_name'\<close>.\<close>

datatype NameFormat = LongName | ShortName

record LatLng =
  latlng_lat :: real
  latlng_lng :: real

record PlaceGeometry =
  location :: "LatLng option"

text \<open>
  \<^verbatim>\<open>google.maps.places.PlaceResult\<close>, restricted to the three fields requested by
  \<^verbatim>\<open>fetchPlaceDetails\<close>; each may be absent from a response.
\<close>

record PlaceResult =
  address_components :: "GeocoderAddressComponent list option"
  formatted_address :: "string option"
  geometry :: "PlaceGeometry option"

datatype PlacesServiceStatus =
  OK | ZERO_RESULTS | NOT_FOUND | INVALID_REQUEST | OVER_QUERY_LIMIT | REQUEST_DENIED
  | UNKNOWN_ERROR

text \<open>
  What the provider does with one \<^verbatim>\<open>getDetails\<close> request: the service constructor or
  the call throws (for instance because the script never loaded), or the callback is
  invoked with a possibly null result and a status.
\<close>

datatype DetailsOutcome =
  DetailsThrows
  | DetailsCallback "PlaceResult option" PlacesServiceStatus

datatype LookupError = FailedToFetchPlaceDetails | ProviderError

section \<open>Pure helpers\<close>

definition component_name :: "GeocoderAddressComponent \<Rightarrow> NameFormat \<Rightarrow> string" where
  "component_name c fmt = (case fmt of LongName \<Rightarrow> long_name c | ShortName \<Rightarrow> short_name c)"

text \<open>
  \<^verbatim>\<open>getAddressComponent\<close>, lines 45-53: the empty string when the array is undefined,
  otherwise the requested name of the first component whose \<^verbatim>\<open>types\<close> include the
  type, the empty string when there is none.
\<close>

definition getAddressComponent ::
  "GeocoderAddressComponent list option \<Rightarrow> string \<Rightarrow> NameFormat \<Rightarrow> string" where
  "getAddressComponent components ty fmt =
     (case components of
        None \<Rightarrow> ''''
      | Some cs \<Rightarrow>
          (case find (\<lambda>c. ty \<in> set (types c)) cs of
             None \<Rightarrow> ''''
           | Some c \<Rightarrow> component_name c fmt))"

definition emptyAddress :: AddressType where
  "emptyAddress =
     \<lparr> address1 = '''', address2 = '''', formattedAddress = '''', city = '''',
       region = '''', postalCode = '''', country = '''', lat = 0, lng = 0 \<rparr>"

text \<open>\<^verbatim>\<open>s || ''\<close> on an optional string.\<close>

definition or_empty :: "string option \<Rightarrow> string" where
  "or_empty s = (case s of None \<Rightarrow> '''' | Some v \<Rightarrow> v)"

text \<open>
  \<^verbatim>\<open>x || 0\<close> on an optional number: a missing value and the falsy number \<open>0\<close> both
  give \<open>0\<close>.
\<close>

definition or_zero :: "real option \<Rightarrow> real" where
  "or_zero x = (case x of None \<Rightarrow> 0 | Some v \<Rightarrow> (if v = 0 then 0 else v))"

text \<open>\<^verbatim>\<open>result.geometry?.location?.lat()\<close> and the same for \<^verbatim>\<open>lng\<close>.\<close>

definition geometry_lat :: "PlaceResult \<Rightarrow> real option" where
  "geometry_lat r =
     (case geometry r of
        None \<Rightarrow> None
      | Some g \<Rightarrow> (case location g of None \<Rightarrow> None | Some l \<Rightarrow> Some (latlng_lat l)))"

definition geometry_lng :: "PlaceResult \<Rightarrow> real option" where
  "geometry_lng r =
     (case geometry r of
        None \<Rightarrow> None
      | Some g \<Rightarrow> (case location g of None \<Rightarrow> None | Some l \<Rightarrow> Some (latlng_lng l)))"

text \<open>The object literal of lines 172-183, built from a resolved place result.\<close>

definition addressOfResult :: "PlaceResult \<Rightarrow> AddressType" where
  "addressOfResult r =
     \<lparr> address1 =
         getAddressComponent (address_components r) ''street_number'' ShortName @ '' '' @
         getAddressComponent (address_components r) ''route'' ShortName,
       address2 = '''',
       formattedAddress = or_empty (formatted_address r),
       city = getAddressComponent (address_components r) ''locality'' LongName,
       region =
         getAddressComponent (address_components r) ''administrative_area_level_1'' ShortName,
       postalCode = getAddressComponent (address_components r) ''postal_code'' ShortName,
       country = getAddressComponent (address_components r) ''country'' LongName,
       lat = or_zero (geometry_lat r),
       lng = or_zero (geometry_lng r) \<rparr>"

text \<open>
  \<^verbatim>\<open>fetchPlaceDetails\<close>, lines 151-166: the promise rejects unless the status is
  \<open>OK\<close> and the result is not null.
\<close>

definition fetchPlaceDetails :: "DetailsOutcome \<Rightarrow> LookupError + PlaceResult" where
  "fetchPlaceDetails outcome =
     (case outcome of
        DetailsThrows \<Rightarrow> Inl ProviderError
      | DetailsCallback result status \<Rightarrow>
          (if status \<noteq> OK \<or> result = None then Inl FailedToFetchPlaceDetails
           else (case result of
                   None \<Rightarrow> Inl FailedToFetchPlaceDetails
                 | Some r \<Rightarrow> Inr r)))"

text \<open>The fetcher given to the detail \<^verbatim>\<open>useSWR\<close>, lines 170-185.\<close>

definition detailFetcher :: "DetailsOutcome \<Rightarrow> LookupError + AddressType" where
  "detailFetcher outcome =
     (case fetchPlaceDetails outcome of
        Inl e \<Rightarrow> Inl e
      | Inr r \<Rightarrow> Inr (addressOfResult r))"

text \<open>A place without street number and route: a locality picked from the list.\<close>

definition localityResult :: PlaceResult where
  "localityResult =
     \<lparr> address_components = Some
         [\<lparr> long_name = ''Mountain View'', short_name = ''Mountain View'',
            types = [''locality'', ''political''] \<rparr>,
          \<lparr> long_name = ''California'', short_name = ''CA'',
            types = [''administrative_area_level_1'', ''political''] \<rparr>,
          \<lparr> long_name = ''United States'', short_name = ''US'',
            types = [''country'', ''political''] \<rparr>],
       formatted_address = Some ''Mountain View, CA, USA'',
       geometry = Some \<lparr> location = Some \<lparr> latlng_lat = 37, latlng_lng = -122 \<rparr> \<rparr> \<rparr>"

section \<open>The request cache\<close>

text \<open>
  Modelled from the spec: the request cache behind \<^verbatim>\<open>useSWR\<close> (the hook comes from
  the package \<^verbatim>\<open>swr\<close>, which is not among the sources). Following the spec's
  Resolution Cache, it maps a request key to a pending or resolved result; the hook
  called with a key returns what the cache holds for that key and nothing for the
  null key; a request is issued for a key that has neither a result nor a request
  in flight; a settled request writes under its own key only. \<open>requested\<close> records
  the keys of the requests issued, in order.
\<close>

record 'a swr_cache =
  cached :: "string \<Rightarrow> 'a option"
  failed :: "string \<Rightarrow> bool"
  inflight :: "string \<Rightarrow> bool"
  requested :: "string list"

record 'a swr_response =
  data :: "'a option"
  error :: bool
  isLoading :: bool

definition empty_cache :: "'a swr_cache" where
  "empty_cache =
     \<lparr> cached = (\<lambda>k. None), failed = (\<lambda>k. False), inflight = (\<lambda>k. False),
       requested = [] \<rparr>"

definition useSWR :: "string option \<Rightarrow> 'a swr_cache \<Rightarrow> 'a swr_response" where
  "useSWR key c =
     (case key of
        None \<Rightarrow> \<lparr> data = None, error = False, isLoading = False \<rparr>
      | Some k \<Rightarrow>
          \<lparr> data = cached c k, error = failed c k,
            isLoading = (inflight c k \<and> cached c k = None) \<rparr>)"

definition swr_request :: "string option \<Rightarrow> 'a swr_cache \<Rightarrow> 'a swr_cache" where
  "swr_request key c =
     (case key of
        None \<Rightarrow> c
      | Some k \<Rightarrow>
          (if inflight c k \<or> cached c k \<noteq> None then c
           else c\<lparr> inflight := (inflight c)(k := True), requested := requested c @ [k] \<rparr>))"

definition swr_settle :: "string \<Rightarrow> LookupError + 'a \<Rightarrow> 'a swr_cache \<Rightarrow> 'a swr_cache" where
  "swr_settle k res c =
     (case res of
        Inl e \<Rightarrow> c\<lparr> failed := (failed c)(k := True), inflight := (inflight c)(k := False) \<rparr>
      | Inr d \<Rightarrow>
          c\<lparr> cached := (cached c)(k := Some d), failed := (failed c)(k := False),
            inflight := (inflight c)(k := False) \<rparr>)"

section \<open>Suggestion lookup\<close>

text \<open>\<^verbatim>\<open>google.maps.places.AutocompletePrediction\<close>: the two properties the code reads.\<close>

record AutocompletePrediction =
  place_id :: string
  description :: string

text \<open>
  One element of \<^verbatim>\<open>suggestions\<close>, lines 314-320; the nesting
  \<^verbatim>\<open>placePrediction.text.text\<close> is flattened to \<open>text_text\<close>.
\<close>

record PlacePrediction =
  placeId :: string
  place :: string
  text_text :: string

datatype PredictionsOutcome =
  PredictionsReject
  | PredictionsResolve "AutocompletePrediction list"

text \<open>The fetcher given to the suggestion \<^verbatim>\<open>useSWR\<close>, lines 310-322.\<close>

definition suggestionFetcher :: "PredictionsOutcome \<Rightarrow> LookupError + PlacePrediction list" where
  "suggestionFetcher outcome =
     (case outcome of
        PredictionsReject \<Rightarrow> Inl ProviderError
      | PredictionsResolve ps \<Rightarrow>
          Inr (map (\<lambda>p. \<lparr> placeId = place_id p, place = place_id p,
                           text_text = description p \<rparr>) ps))"

text \<open>The key expression \<^verbatim>\<open>s ? s : null\<close> of line 309, and of line 169 for identifiers.\<close>

definition queryKey :: "string \<Rightarrow> string option" where
  "queryKey s = (if s = '''' then None else Some s)"

section \<open>The widget\<close>

text \<open>
  The state the two components keep or receive: the host's \<open>address\<close> and
  \<open>searchInput\<close> (changed only through the setters it passes in), the three
  \<^verbatim>\<open>useState\<close> cells of \<^verbatim>\<open>AddressAutoComplete\<close>, the debounced text of
  \<^verbatim>\<open>AddressAutoCompleteInput\<close>, and the two request caches. \<open>committedLog\<close> records
  every argument \<^verbatim>\<open>setAddress\<close> was called with, in order.
\<close>

record widget =
  address :: AddressType
  searchInput :: string
  committedLog :: "AddressType list"
  selectedPlaceId :: string
  isLocating :: bool
  isOpen :: bool
  debouncedSearchInput :: string
  showInlineError :: bool
  suggestionCache :: "PlacePrediction list swr_cache"
  detailCache :: "AddressType swr_cache"

definition initialWidget :: "bool \<Rightarrow> widget" where
  "initialWidget inlineErr =
     \<lparr> address = emptyAddress, searchInput = '''', committedLog = [],
       selectedPlaceId = '''', isLocating = False, isOpen = False,
       debouncedSearchInput = '''', showInlineError = inlineErr,
       suggestionCache = empty_cache, detailCache = empty_cache \<rparr>"

definition setAddress :: "AddressType \<Rightarrow> widget \<Rightarrow> widget" where
  "setAddress a w = w\<lparr> address := a, committedLog := committedLog w @ [a] \<rparr>"

text \<open>Line 199: the committed branch is rendered when \<open>formattedAddress\<close> is truthy.\<close>

definition committed :: "widget \<Rightarrow> bool" where
  "committed w = (formattedAddress (address w) \<noteq> '''')"

definition detail_key :: "widget \<Rightarrow> string option" where
  "detail_key w = queryKey (selectedPlaceId w)"

definition suggestion_key :: "widget \<Rightarrow> string option" where
  "suggestion_key w = queryKey (debouncedSearchInput w)"

definition detail_data :: "widget \<Rightarrow> AddressType option" where
  "detail_data w = data (useSWR (detail_key w) (detailCache w))"

text \<open>Line 328: \<^verbatim>\<open>data?.suggestions || []\<close>.\<close>

definition predictions :: "widget \<Rightarrow> PlacePrediction list" where
  "predictions w =
     (case data (useSWR (suggestion_key w) (suggestionCache w)) of
        None \<Rightarrow> []
      | Some s \<Rightarrow> s)"

definition isSuggestionsLoading :: "widget \<Rightarrow> bool" where
  "isSuggestionsLoading w = isLoading (useSWR (suggestion_key w) (suggestionCache w))"

subsection \<open>What is rendered\<close>

text \<open>The \<^verbatim>\<open>value\<close> of the input element: line 207 when committed, line 339 otherwise.\<close>

definition inputValue :: "widget \<Rightarrow> string" where
  "inputValue w =
     (if committed w
      then (if searchInput w \<noteq> '''' then searchInput w else formattedAddress (address w))
      else searchInput w)"

text \<open>
  The suggestion list, lines 370-412: absent, a spinner, or the labels of the
  predictions followed by the message shown when there are none.
\<close>

datatype dropdown = NoList | Spinner | Listing "string list" "string option"

definition suggestionList :: "widget \<Rightarrow> dropdown" where
  "suggestionList w =
     (if committed w \<or> \<not> isOpen w then NoList
      else if isSuggestionsLoading w then Spinner
      else Listing (map text_text (predictions w))
             (if length (predictions w) = 0
              then Some (if searchInput w = '''' then ''Please enter an address''
                         else ''No address found'')
              else None))"

text \<open>Line 362: the inline validation message.\<close>

definition inlineError :: "widget \<Rightarrow> bool" where
  "inlineError w =
     (\<not> committed w \<and> searchInput w \<noteq> '''' \<and> \<not> isOpen w \<and> selectedPlaceId w = ''''
      \<and> showInlineError w)"

definition rendered :: "widget \<Rightarrow> string \<times> dropdown \<times> bool \<times> bool" where
  "rendered w = (inputValue w, suggestionList w, inlineError w, isLocating w)"

subsection \<open>Event handlers\<close>

datatype GeocodeOutcome = GeocodeThrows | GeocodeResults "string list"

datatype PositionOutcome = PositionError | Position real real GeocodeOutcome

datatype event =
  ChangeInput string
  | FocusInput
  | BlurGraceElapsed
  | KeyEscape
  | ClickPrediction PlacePrediction
  | ClickClear
  | DebounceElapsed
  | SuggestionSettled string PredictionsOutcome
  | DetailSettled string DetailsOutcome
  | ClickLocate bool
  | PositionSettled PositionOutcome

text \<open>\<^verbatim>\<open>onChange\<close>: lines 208-214 in the committed branch, line 340 otherwise.\<close>

definition onChange :: "string \<Rightarrow> widget \<Rightarrow> widget" where
  "onChange v w =
     (if committed w
      then (if v = ''''
            then setAddress emptyAddress (w\<lparr> searchInput := v, selectedPlaceId := '''' \<rparr>)
            else w\<lparr> searchInput := v \<rparr>)
      else w\<lparr> searchInput := v \<rparr>)"

text \<open>\<^verbatim>\<open>onFocus\<close>: lines 215-220 in the committed branch, line 342 otherwise.\<close>

definition onFocus :: "widget \<Rightarrow> widget" where
  "onFocus w =
     (if committed w
      then (if searchInput w = ''''
            then w\<lparr> searchInput := formattedAddress (address w), isOpen := True \<rparr>
            else w\<lparr> isOpen := True \<rparr>)
      else w\<lparr> isOpen := True \<rparr>)"

text \<open>The clear button of the committed branch, lines 224-228.\<close>

definition onClear :: "widget \<Rightarrow> widget" where
  "onClear w =
     (if committed w
      then (setAddress emptyAddress (w\<lparr> selectedPlaceId := '''' \<rparr>))\<lparr> searchInput := '''' \<rparr>
      else w)"

text \<open>
  The click handler of a listed prediction, lines 389-393. The element exists only
  in the open, loaded list of the input branch.
\<close>

definition onPredictionClick :: "PlacePrediction \<Rightarrow> widget \<Rightarrow> widget" where
  "onPredictionClick p w =
     (if \<not> committed w \<and> isOpen w \<and> \<not> isSuggestionsLoading w \<and> p \<in> set (predictions w)
      then w\<lparr> searchInput := text_text p, selectedPlaceId := place p, isOpen := False \<rparr>
      else w)"

text \<open>
  \<^verbatim>\<open>handleLocationDetect\<close>, lines 118-149, in its two halves. The synchronous half
  runs on a click of the locate button (rendered in the input branch, disabled while
  locating): without \<^verbatim>\<open>navigator.geolocation\<close> it only warns. The asynchronous half
  is one of the two callbacks of \<^verbatim>\<open>getCurrentPosition\<close>. The host's
  \<^verbatim>\<open>onLocationDetect\<close> is called after \<^verbatim>\<open>setSelectedPlaceId\<close> inside the
  \<^verbatim>\<open>try\<close>, so whatever it does the \<^verbatim>\<open>finally\<close> block still runs.
\<close>

definition handleLocationDetect :: "bool \<Rightarrow> widget \<Rightarrow> widget" where
  "handleLocationDetect supported w =
     (if committed w \<or> isLocating w then w
      else if \<not> supported then w
      else w\<lparr> isLocating := True \<rparr>)"

definition positionCallback :: "PositionOutcome \<Rightarrow> widget \<Rightarrow> widget" where
  "positionCallback outcome w =
     (case outcome of
        PositionError \<Rightarrow> w\<lparr> isLocating := False \<rparr>
      | Position la lo g \<Rightarrow>
          (case g of
             GeocodeThrows \<Rightarrow> w\<lparr> isLocating := False \<rparr>
           | GeocodeResults ids \<Rightarrow>
               (case ids of
                  [] \<Rightarrow> w\<lparr> isLocating := False \<rparr>
                | pid # rest \<Rightarrow> w\<lparr> selectedPlaceId := pid, isLocating := False \<rparr>)))"

definition handle :: "event \<Rightarrow> widget \<Rightarrow> widget" where
  "handle e w =
     (case e of
        ChangeInput v \<Rightarrow> onChange v w
      | FocusInput \<Rightarrow> onFocus w
      | BlurGraceElapsed \<Rightarrow> w\<lparr> isOpen := False \<rparr>
      | KeyEscape \<Rightarrow> (if committed w then w else w\<lparr> isOpen := False \<rparr>)
      | ClickPrediction p \<Rightarrow> onPredictionClick p w
      | ClickClear \<Rightarrow> onClear w
      | DebounceElapsed \<Rightarrow>
          (if committed w then w else w\<lparr> debouncedSearchInput := searchInput w \<rparr>)
      | SuggestionSettled k outcome \<Rightarrow>
          w\<lparr> suggestionCache := swr_settle k (suggestionFetcher outcome) (suggestionCache w) \<rparr>
      | DetailSettled k outcome \<Rightarrow>
          w\<lparr> detailCache := swr_settle k (detailFetcher outcome) (detailCache w) \<rparr>
      | ClickLocate supported \<Rightarrow> handleLocationDetect supported w
      | PositionSettled outcome \<Rightarrow> positionCallback outcome w)"

subsection \<open>Rendering after an event\<close>

text \<open>
  The effect of lines 191-195 has the dependency \<^verbatim>\<open>data\<close>: it runs when the detail data
  differ from those of the previous render, and commits them when present.
\<close>

definition commitEffect :: "widget \<Rightarrow> widget \<Rightarrow> widget" where
  "commitEffect old new =
     (if detail_data new \<noteq> detail_data old
      then (case detail_data new of None \<Rightarrow> new | Some a \<Rightarrow> setAddress a new)
      else new)"

text \<open>
  \<^verbatim>\<open>AddressAutoCompleteInput\<close> is mounted when the committed branch gives way to the
  input branch; \<^verbatim>\<open>useDebounce\<close> then starts from the current search text (line 85).
\<close>

definition mountInput :: "widget \<Rightarrow> widget \<Rightarrow> widget" where
  "mountInput old new =
     (if committed old \<and> \<not> committed new
      then new\<lparr> debouncedSearchInput := searchInput new \<rparr>
      else new)"

text \<open>A hook whose key changed (or that was just mounted) asks the cache for its key.\<close>

definition issueRequests :: "widget \<Rightarrow> widget \<Rightarrow> widget" where
  "issueRequests old new =
     (let n1 = (if detail_key new \<noteq> detail_key old
                then new\<lparr> detailCache := swr_request (detail_key new) (detailCache new) \<rparr>
                else new)
      in if \<not> committed n1 \<and> (committed old \<or> suggestion_key n1 \<noteq> suggestion_key old)
         then n1\<lparr> suggestionCache := swr_request (suggestion_key n1) (suggestionCache n1) \<rparr>
         else n1)"

definition step :: "event \<Rightarrow> widget \<Rightarrow> widget" where
  "step e w = issueRequests w (mountInput w (commitEffect w (handle e w)))"

fun run :: "event list \<Rightarrow> widget \<Rightarrow> widget" where
  "run [] w = w"
| "run (e # es) w = run es (step e w)"

text \<open>
  The address on display agrees with the detail data of the selected identifier
  whenever there are any: what the effect establishes and every handler keeps.
\<close>

definition synced :: "widget \<Rightarrow> bool" where
  "synced w = (case detail_data w of None \<Rightarrow> True | Some a \<Rightarrow> address w = a)"

section \<open>The debouncer\<close>

text \<open>
  \<^verbatim>\<open>useDebounce\<close>, lines 84-93, over a clock in milliseconds. \<open>lastValue\<close> is the
  \<^verbatim>\<open>value\<close> dependency of the latest run of the effect, \<open>pendingTimer\<close> the timeout
  it left behind (when it is due, and the value its closure captured), \<open>emitted\<close> the
  arguments of the calls of \<^verbatim>\<open>setDebouncedValue\<close> so far.
\<close>

record 'a debounce_state =
  lastValue :: 'a
  debouncedValue :: 'a
  pendingTimer :: "(nat \<times> 'a) option"
  emitted :: "'a list"

text \<open>\<^verbatim>\<open>delay || 500\<close>: an undefined delay and the falsy delay \<open>0\<close> both give \<open>500\<close>.\<close>

definition delayOrDefault :: "nat option \<Rightarrow> nat" where
  "delayOrDefault delay = (case delay of None \<Rightarrow> 500 | Some d \<Rightarrow> (if d = 0 then 500 else d))"

text \<open>Mounting: the state starts as the value, and the effect runs once.\<close>

definition useDebounce_mount :: "nat \<Rightarrow> 'a \<Rightarrow> nat option \<Rightarrow> 'a debounce_state" where
  "useDebounce_mount now v delay =
     \<lparr> lastValue = v, debouncedValue = v,
       pendingTimer = Some (now + delayOrDefault delay, v), emitted = [] \<rparr>"

text \<open>
  A render with the value \<open>v\<close>: when the dependency \<^verbatim>\<open>value\<close> changed, the cleanup
  clears the old timeout and the effect sets a new one. The other dependency,
  \<^verbatim>\<open>delay\<close>, is the same at every render of a component (line 306 passes 500).
\<close>

definition useDebounce_render ::
  "nat \<Rightarrow> 'a \<Rightarrow> nat option \<Rightarrow> 'a debounce_state \<Rightarrow> 'a debounce_state" where
  "useDebounce_render now v delay s =
     (if v = lastValue s then s
      else s\<lparr> lastValue := v, pendingTimer := Some (now + delayOrDefault delay, v) \<rparr>)"

text \<open>The clock reaches \<open>now\<close>: a timeout that is due runs its callback.\<close>

definition timerFires :: "nat \<Rightarrow> 'a debounce_state \<Rightarrow> 'a debounce_state" where
  "timerFires now s =
     (case pendingTimer s of
        None \<Rightarrow> s
      | Some (due, v) \<Rightarrow>
          (if due \<le> now
           then s\<lparr> debouncedValue := v, pendingTimer := None, emitted := emitted s @ [v] \<rparr>
           else s))"

text \<open>Values arriving at the given times, in order.\<close>

fun feed :: "nat option \<Rightarrow> (nat \<times> 'a) list \<Rightarrow> 'a debounce_state \<Rightarrow> 'a debounce_state" where
  "feed delay [] s = s"
| "feed delay ((t, v) # cs) s = feed delay cs (useDebounce_render t v delay (timerFires t s))"

text \<open>No further value arrives: a pending timeout runs when it is due.\<close>

definition quiesce :: "'a debounce_state \<Rightarrow> 'a debounce_state" where
  "quiesce s = (case pendingTimer s of None \<Rightarrow> s | Some (due, v) \<Rightarrow> timerFires due s)"

text \<open>
  A burst after the change to \<open>v0\<close> at time \<open>t0\<close>: every value differs from the one
  before it and arrives less than the quiet period \<open>q\<close> after it.
\<close>

fun burst :: "nat \<Rightarrow> nat \<Rightarrow> 'a \<Rightarrow> (nat \<times> 'a) list \<Rightarrow> bool" where
  "burst q t0 v0 [] = True"
| "burst q t0 v0 ((t, v) # cs) = (t0 \<le> t \<and> t < t0 + q \<and> v \<noteq> v0 \<and> burst q t v cs)"

text \<open>No timeout of the state is due at \<open>t\<close> or before.\<close>

definition nothingDueBy :: "nat \<Rightarrow> 'a debounce_state \<Rightarrow> bool" where
  "nothingDueBy t s = (case pendingTimer s of None \<Rightarrow> True | Some (due, v) \<Rightarrow> t < due)"

text \<open>
  The debounced text is the key of the suggestion hook (lines 306-309). A call of
  \<^verbatim>\<open>setDebouncedValue\<close> with the value the state already has changes nothing; a call
  with another value re-renders the component, which hands the key of line 309 to
  the hook: a lookup submitted to the suggestion resolver, unless the key is null.
  The lookups are counted where the component submits them; how the resolver
  answers a submitted key is not the component's code.
\<close>

fun submitEmissions :: "string \<Rightarrow> string list \<Rightarrow> string list" where
  "submitEmissions cur [] = []"
| "submitEmissions cur (v # vs) =
     (if v = cur then submitEmissions cur vs
      else (case queryKey v of
              None \<Rightarrow> submitEmissions v vs
            | Some k \<Rightarrow> k # submitEmissions v vs))"

text \<open>What a run of arrivals adds to the emissions, and the lookups it submits.\<close>

definition burstEmissions ::
  "nat option \<Rightarrow> (nat \<times> 'a) list \<Rightarrow> 'a debounce_state \<Rightarrow> 'a list" where
  "burstEmissions delay cs s = drop (length (emitted s)) (emitted (quiesce (feed delay cs s)))"

definition burstLookups ::
  "nat option \<Rightarrow> (nat \<times> string) list \<Rightarrow> string debounce_state \<Rightarrow> string list" where
  "burstLookups delay cs s = submitEmissions (debouncedValue s) (burstEmissions delay cs s)"

text \<open>The input component at rest: mounted with the empty text, its first timeout run.\<close>

definition idleDebounce :: "string debounce_state" where
  "idleDebounce = quiesce (useDebounce_mount 0 '''' (Some 500))"

text \<open>The component at rest after the user typed a text and the quiet period passed.\<close>

definition restingAb :: "string debounce_state" where
  "restingAb = quiesce (feed (Some 500) [(1000, ''ab'')] idleDebounce)"

section \<open>The script loader\<close>

text \<open>
  \<^verbatim>\<open>loadGoogleMapsScript\<close>, lines 22-43. A promise is identified by its position in the
  list of the promises created so far; \<open>googleMapsPromise\<close> is the module variable,
  \<open>scripts\<close> the \<^verbatim>\<open>src\<close> of every script element appended to the document, and
  \<open>windowGoogleMaps\<close> says whether \<^verbatim>\<open>window.google?.maps\<close> is truthy.
\<close>

datatype PromiseState = Pending | Fulfilled | Rejected

record loader =
  googleMapsPromise :: "nat option"
  promises :: "PromiseState list"
  scripts :: "string list"
  windowGoogleMaps :: bool

definition initialLoader :: loader where
  "initialLoader =
     \<lparr> googleMapsPromise = None, promises = [], scripts = [], windowGoogleMaps = False \<rparr>"

definition loadGoogleMapsScript :: "string \<Rightarrow> loader \<Rightarrow> nat \<times> loader" where
  "loadGoogleMapsScript apiKey st =
     (case googleMapsPromise st of
        Some p \<Rightarrow> (p, st)
      | None \<Rightarrow>
          (let p = length (promises st) in
           if windowGoogleMaps st
           then (p, st\<lparr> googleMapsPromise := Some p, promises := promises st @ [Fulfilled] \<rparr>)
           else (p, st\<lparr> googleMapsPromise := Some p, promises := promises st @ [Pending],
                        scripts := scripts st @
                          [''https://maps.googleapis.com/maps/api/js?key='' @ apiKey @
                           ''&libraries=places''] \<rparr>)))"

text \<open>
  \<^verbatim>\<open>onload\<close> and \<^verbatim>\<open>onerror\<close> of the script settle the promise whose executor
  appended it, which is the cached one. Only a promise that is still pending has a
  script whose events are outstanding, and a settled promise keeps its state.
\<close>

definition scriptPending :: "loader \<Rightarrow> bool" where
  "scriptPending st =
     (case googleMapsPromise st of
        None \<Rightarrow> False
      | Some p \<Rightarrow> p < length (promises st) \<and> promises st ! p = Pending)"

definition settlePromise :: "PromiseState \<Rightarrow> loader \<Rightarrow> loader" where
  "settlePromise outcome st =
     (case googleMapsPromise st of
        None \<Rightarrow> st
      | Some p \<Rightarrow> st\<lparr> promises := (promises st)[p := outcome] \<rparr>)"

datatype loader_event = Call string | ScriptLoaded | ScriptFailed

definition loader_step :: "loader_event \<Rightarrow> loader \<Rightarrow> loader" where
  "loader_step e st =
     (case e of
        Call apiKey \<Rightarrow> snd (loadGoogleMapsScript apiKey st)
      | ScriptLoaded \<Rightarrow>
          (if scriptPending st then (settlePromise Fulfilled st)\<lparr> windowGoogleMaps := True \<rparr>
           else st)
      | ScriptFailed \<Rightarrow> (if scriptPending st then settlePromise Rejected st else st))"

fun loader_run :: "loader_event list \<Rightarrow> loader \<Rightarrow> loader" where
  "loader_run [] st = st"
| "loader_run (e # es) st = loader_run es (loader_step e st)"

section \<open>Predicates and scenarios used in the statements\<close>

text \<open>The state after a reset: the canonical empty address, no identifier, no text.\<close>

definition cleared :: "widget \<Rightarrow> bool" where
  "cleared w =
     (address w =
        \<lparr> address1 = '''', address2 = '''', formattedAddress = '''', city = '''',
          region = '''', postalCode = '''', country = '''', lat = 0, lng = 0 \<rparr>
      \<and> selectedPlaceId w = '''' \<and> searchInput w = '''')"

text \<open>A settled request whose key is not the key its hook has now.\<close>

definition stale :: "widget \<Rightarrow> event \<Rightarrow> bool" where
  "stale w e =
     (case e of
        SuggestionSettled k outcome \<Rightarrow> suggestion_key w \<noteq> Some k
      | DetailSettled k outcome \<Rightarrow> detail_key w \<noteq> Some k
      | _ \<Rightarrow> False)"

text \<open>Some detail request of the events resolved successfully to the address \<open>a\<close>.\<close>

definition resolvedBy :: "event list \<Rightarrow> AddressType \<Rightarrow> bool" where
  "resolvedBy es a =
     list_ex (\<lambda>e. case e of DetailSettled k outcome \<Rightarrow> detailFetcher outcome = Inr a
                    | _ \<Rightarrow> False) es"

text \<open>
  Two states that differ at most in what the caches hold for keys other than the
  current ones.
\<close>

definition agrees :: "widget \<Rightarrow> widget \<Rightarrow> bool" where
  "agrees w' w =
     (address w' = address w \<and> committedLog w' = committedLog w \<and>
      searchInput w' = searchInput w \<and> selectedPlaceId w' = selectedPlaceId w \<and>
      isLocating w' = isLocating w \<and> isOpen w' = isOpen w \<and>
      debouncedSearchInput w' = debouncedSearchInput w \<and>
      showInlineError w' = showInlineError w \<and>
      useSWR (suggestion_key w) (suggestionCache w') =
        useSWR (suggestion_key w) (suggestionCache w) \<and>
      useSWR (detail_key w) (detailCache w') = useSWR (detail_key w) (detailCache w))"

text \<open>A loader whose only script failed to load.\<close>

definition failedLoader :: loader where
  "failedLoader = loader_run [ScriptFailed] (snd (loadGoogleMapsScript ''key-one'' initialLoader))"

text \<open>
  A session: the user focuses the field and types, the quiet period passes, the
  provider answers with one prediction, the user picks it, and the provider
  resolves it.
\<close>

definition amphiPrediction :: AutocompletePrediction where
  "amphiPrediction =
     \<lparr> place_id = ''ChIJ2eUgeAK6j4ARbn5u_wAGqWA'',
       description = ''1600 Amphitheatre Parkway, Mountain View, CA, USA'' \<rparr>"

definition amphiSuggestion :: PlacePrediction where
  "amphiSuggestion =
     \<lparr> placeId = ''ChIJ2eUgeAK6j4ARbn5u_wAGqWA'', place = ''ChIJ2eUgeAK6j4ARbn5u_wAGqWA'',
       text_text = ''1600 Amphitheatre Parkway, Mountain View, CA, USA'' \<rparr>"

definition amphiResult :: PlaceResult where
  "amphiResult =
     \<lparr> address_components = Some
         [\<lparr> long_name = ''1600'', short_name = ''1600'', types = [''street_number''] \<rparr>,
          \<lparr> long_name = ''Amphitheatre Parkway'', short_name = ''Amphitheatre Pkwy'',
            types = [''route''] \<rparr>,
          \<lparr> long_name = ''Mountain View'', short_name = ''Mountain View'',
            types = [''locality'', ''political''] \<rparr>,
          \<lparr> long_name = ''California'', short_name = ''CA'',
            types = [''administrative_area_level_1'', ''political''] \<rparr>,
          \<lparr> long_name = ''United States'', short_name = ''US'',
            types = [''country'', ''political''] \<rparr>,
          \<lparr> long_name = ''94043'', short_name = ''94043'', types = [''postal_code''] \<rparr>],
       formatted_address = Some ''1600 Amphitheatre Pkwy, Mountain View, CA 94043, USA'',
       geometry = Some \<lparr> location = Some \<lparr> latlng_lat = 37, latlng_lng = -122 \<rparr> \<rparr> \<rparr>"

definition amphiAddress :: AddressType where
  "amphiAddress =
     \<lparr> address1 = ''1600 Amphitheatre Pkwy'', address2 = '''',
       formattedAddress = ''1600 Amphitheatre Pkwy, Mountain View, CA 94043, USA'',
       city = ''Mountain View'', region = ''CA'', postalCode = ''94043'',
       country = ''United States'', lat = 37, lng = -122 \<rparr>"

definition typedAmphi :: widget where
  "typedAmphi = run [FocusInput, ChangeInput ''1600 Amphi'', DebounceElapsed] (initialWidget True)"

definition listedAmphi :: widget where
  "listedAmphi =
     step (SuggestionSettled ''1600 Amphi'' (PredictionsResolve [amphiPrediction])) typedAmphi"

definition clickedAmphi :: widget where
  "clickedAmphi = step (ClickPrediction amphiSuggestion) listedAmphi"

definition committedAmphi :: widget where
  "committedAmphi =
     step (DetailSettled ''ChIJ2eUgeAK6j4ARbn5u_wAGqWA'' (DetailsCallback (Some amphiResult) OK))
       clickedAmphi"

text \<open>The user typed a text for which the lookup is still in flight.\<close>

definition typedXyz :: widget where
  "typedXyz = run [FocusInput, ChangeInput ''xyz'', DebounceElapsed] (initialWidget True)"

text \<open>
  The user typed on after a first lookup was issued; the lookup for the longer text
  has been answered, the one for the shorter text has not.
\<close>

definition overtaken :: widget where
  "overtaken =
     run [FocusInput, ChangeInput ''1600'', DebounceElapsed, ChangeInput ''1600 Amphi'',
          DebounceElapsed,
          SuggestionSettled ''1600 Amphi'' (PredictionsResolve [amphiPrediction])]
       (initialWidget True)"

definition lateResponses :: "event list" where
  "lateResponses =
     [SuggestionSettled ''1600''
        (PredictionsResolve [\<lparr> place_id = ''ChIJ-other'', description = ''1600 Pennsylvania Avenue'' \<rparr>]),
      DetailSettled ''ChIJ-other'' (DetailsCallback (Some localityResult) OK)]"

text \<open>
  Every address the detail cache holds, every address passed to \<^verbatim>\<open>setAddress\<close> and
  the address on display satisfy \<open>R\<close>, the empty address excepted.
\<close>

definition traced :: "(AddressType \<Rightarrow> bool) \<Rightarrow> widget \<Rightarrow> bool" where
  "traced R w =
     ((\<forall>k a. cached (detailCache w) k = Some a \<longrightarrow> R a) \<and>
      (\<forall>a \<in> set (committedLog w). a = emptyAddress \<or> R a) \<and>
      (address w = emptyAddress \<or> R (address w)))"

text \<open>The session above, followed by a click on the clear button.\<close>

definition sessionEvents :: "event list" where
  "sessionEvents =
     [FocusInput, ChangeInput ''1600 Amphi'', DebounceElapsed,
      SuggestionSettled ''1600 Amphi'' (PredictionsResolve [amphiPrediction]),
      ClickPrediction amphiSuggestion,
      DetailSettled ''ChIJ2eUgeAK6j4ARbn5u_wAGqWA'' (DetailsCallback (Some amphiResult) OK),
      ClickClear]"

section \<open>How a step changes the state\<close>

subsection \<open>Fields a phase of the step leaves alone\<close>

lemma setAddress_fields:
  "address (setAddress a w) = a"
  "committedLog (setAddress a w) = committedLog w @ [a]"
  "searchInput (setAddress a w) = searchInput w"
  "selectedPlaceId (setAddress a w) = selectedPlaceId w"
  "isLocating (setAddress a w) = isLocating w"
  "isOpen (setAddress a w) = isOpen w"
  "debouncedSearchInput (setAddress a w) = debouncedSearchInput w"
  "showInlineError (setAddress a w) = showInlineError w"
  "suggestionCache (setAddress a w) = suggestionCache w"
  "detailCache (setAddress a w) = detailCache w"
  by (simp_all add: setAddress_def)

lemma detail_data_setAddress: "detail_data (setAddress a w) = detail_data w"
  by (simp add: detail_data_def detail_key_def setAddress_fields)

lemma commitEffect_fields:
  "searchInput (commitEffect old new) = searchInput new"
  "selectedPlaceId (commitEffect old new) = selectedPlaceId new"
  "isLocating (commitEffect old new) = isLocating new"
  "isOpen (commitEffect old new) = isOpen new"
  "debouncedSearchInput (commitEffect old new) = debouncedSearchInput new"
  "showInlineError (commitEffect old new) = showInlineError new"
  "suggestionCache (commitEffect old new) = suggestionCache new"
  "detailCache (commitEffect old new) = detailCache new"
  by (simp_all add: commitEffect_def setAddress_fields split: option.split)

lemma commitEffect_same:
  "detail_data new = detail_data old \<Longrightarrow> commitEffect old new = new"
  by (simp add: commitEffect_def)

lemma mountInput_fields:
  "address (mountInput old new) = address new"
  "committedLog (mountInput old new) = committedLog new"
  "searchInput (mountInput old new) = searchInput new"
  "selectedPlaceId (mountInput old new) = selectedPlaceId new"
  "isLocating (mountInput old new) = isLocating new"
  "isOpen (mountInput old new) = isOpen new"
  "showInlineError (mountInput old new) = showInlineError new"
  "suggestionCache (mountInput old new) = suggestionCache new"
  "detailCache (mountInput old new) = detailCache new"
  by (simp_all add: mountInput_def)

lemma swr_request_fields:
  "cached (swr_request key c) = cached c"
  "failed (swr_request key c) = failed c"
  by (simp_all add: swr_request_def split: option.split)

lemma issueRequests_fields:
  "address (issueRequests old new) = address new"
  "committedLog (issueRequests old new) = committedLog new"
  "searchInput (issueRequests old new) = searchInput new"
  "selectedPlaceId (issueRequests old new) = selectedPlaceId new"
  "isLocating (issueRequests old new) = isLocating new"
  "isOpen (issueRequests old new) = isOpen new"
  "debouncedSearchInput (issueRequests old new) = debouncedSearchInput new"
  "showInlineError (issueRequests old new) = showInlineError new"
  "cached (detailCache (issueRequests old new)) = cached (detailCache new)"
  "cached (suggestionCache (issueRequests old new)) = cached (suggestionCache new)"
  by (simp_all add: issueRequests_def Let_def swr_request_fields)

lemma step_fields:
  "searchInput (step e w) = searchInput (handle e w)"
  "selectedPlaceId (step e w) = selectedPlaceId (handle e w)"
  "isLocating (step e w) = isLocating (handle e w)"
  "isOpen (step e w) = isOpen (handle e w)"
  "showInlineError (step e w) = showInlineError (handle e w)"
  "address (step e w) = address (commitEffect w (handle e w))"
  "committedLog (step e w) = committedLog (commitEffect w (handle e w))"
  "cached (detailCache (step e w)) = cached (detailCache (handle e w))"
  "cached (suggestionCache (step e w)) = cached (suggestionCache (handle e w))"
  by (simp_all add: step_def issueRequests_fields mountInput_fields commitEffect_fields)

lemma detail_data_cong:
  "selectedPlaceId w' = selectedPlaceId w \<Longrightarrow>
   cached (detailCache w') = cached (detailCache w) \<Longrightarrow> detail_data w' = detail_data w"
  by (simp add: detail_data_def detail_key_def useSWR_def split: option.split)

lemma detail_data_step: "detail_data (step e w) = detail_data (handle e w)"
  by (rule detail_data_cong) (simp_all add: step_fields)

lemma detail_data_unselected: "selectedPlaceId w = '''' \<Longrightarrow> detail_data w = None"
  by (simp add: detail_data_def detail_key_def queryKey_def useSWR_def)

lemma commitEffect_unselected:
  "selectedPlaceId new = '''' \<Longrightarrow> commitEffect old new = new"
  by (simp add: commitEffect_def detail_data_unselected)

lemma cleared_step:
  assumes "address (handle e w) = emptyAddress" and "selectedPlaceId (handle e w) = ''''"
    and "searchInput (handle e w) = ''''"
  shows "cleared (step e w)"
  using assms by (simp add: cleared_def step_fields commitEffect_unselected emptyAddress_def)

lemma positionCallback_isLocating: "isLocating (positionCallback outcome w) = False"
  by (simp add: positionCallback_def
      split: PositionOutcome.split GeocodeOutcome.split list.split)

lemma step_PositionError:
  "step (PositionSettled PositionError) w =
     issueRequests w (mountInput w (w\<lparr> isLocating := False \<rparr>))"
proof -
  have "detail_data (w\<lparr> isLocating := False \<rparr>) = detail_data w"
    by (rule detail_data_cong) simp_all
  then show ?thesis
    by (simp add: step_def handle_def positionCallback_def commitEffect_same)
qed

lemma suggestionList_cong:
  assumes "address w' = address w" and "isOpen w' = isOpen w"
    and "searchInput w' = searchInput w"
    and "debouncedSearchInput w' = debouncedSearchInput w"
    and "cached (suggestionCache w') = cached (suggestionCache w)"
    and "inflight (suggestionCache w') = inflight (suggestionCache w)"
  shows "suggestionList w' = suggestionList w"
  using assms
  by (simp add: suggestionList_def committed_def isSuggestionsLoading_def predictions_def
      suggestion_key_def useSWR_def split: option.split)

subsection \<open>Settled requests\<close>

lemma step_cache_only:
  assumes "address h = address w" and "committedLog h = committedLog w"
    and "selectedPlaceId h = selectedPlaceId w"
    and "debouncedSearchInput h = debouncedSearchInput w"
    and "detail_data h = detail_data w"
  shows "issueRequests w (mountInput w (commitEffect w h)) = h"
proof -
  have c: "commitEffect w h = h"
    using assms(5) by (rule commitEffect_same)
  have m: "mountInput w h = h"
    using assms(1) by (simp add: mountInput_def committed_def)
  have i: "issueRequests w h = h"
    using assms(1,3,4) by (simp add: issueRequests_def detail_key_def suggestion_key_def committed_def)
  show ?thesis by (simp add: c m i)
qed

lemma step_SuggestionSettled:
  "step (SuggestionSettled k outcome) w =
     w\<lparr> suggestionCache := swr_settle k (suggestionFetcher outcome) (suggestionCache w) \<rparr>"
proof -
  have "detail_data (w\<lparr> suggestionCache := swr_settle k (suggestionFetcher outcome) (suggestionCache w) \<rparr>)
        = detail_data w"
    by (rule detail_data_cong) simp_all
  then show ?thesis
    by (simp add: step_def handle_def step_cache_only)
qed

lemma step_DetailSettled_same:
  assumes "detail_data (w\<lparr> detailCache := swr_settle k (detailFetcher outcome) (detailCache w) \<rparr>)
           = detail_data w"
  shows "step (DetailSettled k outcome) w =
     w\<lparr> detailCache := swr_settle k (detailFetcher outcome) (detailCache w) \<rparr>"
  using assms by (simp add: step_def handle_def step_cache_only)

lemma swr_settle_other:
  "key \<noteq> Some k \<Longrightarrow> useSWR key (swr_settle k res c) = useSWR key c"
  by (cases key; cases res) (simp_all add: useSWR_def swr_settle_def)

lemma swr_settle_failure_data:
  "data (useSWR key (swr_settle k (Inl err) c)) = data (useSWR key c)"
  by (cases key) (simp_all add: useSWR_def swr_settle_def)

lemma detail_failure_data:
  "detail_data (w\<lparr> detailCache := swr_settle k (Inl err) (detailCache w) \<rparr>) = detail_data w"
  by (simp add: detail_data_def detail_key_def swr_settle_failure_data)

lemma rendered_detailCache: "rendered (w\<lparr> detailCache := c \<rparr>) = rendered w"
  by (simp add: rendered_def inputValue_def suggestionList_def inlineError_def committed_def
      isSuggestionsLoading_def predictions_def suggestion_key_def)

lemma detailFetcher_fails:
  "status \<noteq> OK \<or> result = None \<Longrightarrow>
   detailFetcher (DetailsCallback result status) = Inl FailedToFetchPlaceDetails"
  "detailFetcher DetailsThrows = Inl ProviderError"
  by (auto simp: detailFetcher_def fetchPlaceDetails_def)

lemma detailFetcher_Inr:
  "detailFetcher outcome = Inr a \<longleftrightarrow>
   (\<exists>r. outcome = DetailsCallback (Some r) OK \<and> a = addressOfResult r)"
  by (cases outcome) (auto simp: detailFetcher_def fetchPlaceDetails_def split: option.splits)

subsection \<open>Responses for keys that are not current\<close>

lemma stale_step_agrees: "stale w e \<Longrightarrow> agrees (step e w) w"
proof (cases e)
  case (SuggestionSettled k outcome)
  assume "stale w e"
  then have "suggestion_key w \<noteq> Some k"
    by (simp add: stale_def SuggestionSettled)
  then show ?thesis
    by (simp add: SuggestionSettled step_SuggestionSettled agrees_def swr_settle_other)
next
  case (DetailSettled k outcome)
  assume "stale w e"
  then have n: "detail_key w \<noteq> Some k"
    by (simp add: stale_def DetailSettled)
  have "step (DetailSettled k outcome) w =
     w\<lparr> detailCache := swr_settle k (detailFetcher outcome) (detailCache w) \<rparr>"
    by (rule step_DetailSettled_same)
      (simp add: detail_data_def detail_key_def swr_settle_other [OF n [unfolded detail_key_def]])
  then show ?thesis
    by (simp add: DetailSettled agrees_def swr_settle_other [OF n])
qed (simp_all add: stale_def)

lemma agrees_keys:
  "agrees w' w \<Longrightarrow> suggestion_key w' = suggestion_key w \<and> detail_key w' = detail_key w"
  by (simp add: agrees_def suggestion_key_def detail_key_def)

lemma agrees_stale: "agrees w' w \<Longrightarrow> stale w' e = stale w e"
  by (cases e) (simp_all add: stale_def agrees_keys)

lemma agrees_trans: "agrees w'' w' \<Longrightarrow> agrees w' w \<Longrightarrow> agrees w'' w"
  using agrees_keys [of w' w] by (simp add: agrees_def)

lemma agrees_refl: "agrees w w"
  by (simp add: agrees_def)

lemma agrees_observed:
  assumes "agrees w' w"
  shows "predictions w' = predictions w" and "isSuggestionsLoading w' = isSuggestionsLoading w"
    and "detail_data w' = detail_data w" and "rendered w' = rendered w"
proof -
  from assms have k: "suggestion_key w' = suggestion_key w" "detail_key w' = detail_key w"
    by (simp_all add: agrees_keys)
  from assms show p: "predictions w' = predictions w"
    by (simp add: predictions_def k agrees_def)
  from assms show l: "isSuggestionsLoading w' = isSuggestionsLoading w"
    by (simp add: isSuggestionsLoading_def k agrees_def)
  from assms show "detail_data w' = detail_data w"
    by (simp add: detail_data_def k agrees_def)
  from assms have "inputValue w' = inputValue w" "inlineError w' = inlineError w"
    "suggestionList w' = suggestionList w"
    by (simp_all add: inputValue_def inlineError_def suggestionList_def committed_def p l
        agrees_def)
  with assms show "rendered w' = rendered w"
    by (simp add: rendered_def agrees_def)
qed

lemma stale_run_agrees: "\<forall>e \<in> set es. stale w e \<Longrightarrow> agrees (run es w) w"
proof (induction es arbitrary: w)
  case Nil
  show ?case by (simp add: agrees_refl)
next
  case (Cons e es)
  then have a: "agrees (step e w) w"
    by (simp add: stale_step_agrees)
  from Cons.prems have "\<forall>e' \<in> set es. stale (step e w) e'"
    by (simp add: agrees_stale [OF a])
  then have "agrees (run es (step e w)) (step e w)"
    by (rule Cons.IH)
  then show ?case
    using a by (simp add: agrees_trans)
qed

subsection \<open>The cached promise\<close>

lemma loadGoogleMapsScript_cached:
  "googleMapsPromise st = Some p \<Longrightarrow> loadGoogleMapsScript k st = (p, st)"
  by (simp add: loadGoogleMapsScript_def)

lemma loadGoogleMapsScript_caches:
  "loadGoogleMapsScript k st = (p, s1) \<Longrightarrow> googleMapsPromise s1 = Some p"
  by (auto simp: loadGoogleMapsScript_def Let_def split: option.splits if_splits)

lemma loader_step_keeps:
  "googleMapsPromise st = Some p \<Longrightarrow>
   googleMapsPromise (loader_step e st) = Some p \<and> scripts (loader_step e st) = scripts st"
  by (cases e) (simp_all add: loader_step_def loadGoogleMapsScript_def settlePromise_def)

lemma loader_step_rejected:
  "googleMapsPromise st = Some p \<Longrightarrow> promises st ! p = Rejected \<Longrightarrow>
   promises (loader_step e st) ! p = Rejected"
  by (cases e)
    (simp_all add: loader_step_def loadGoogleMapsScript_def settlePromise_def scriptPending_def)

lemma loader_run_keeps:
  "googleMapsPromise st = Some p \<Longrightarrow>
   googleMapsPromise (loader_run es st) = Some p \<and> scripts (loader_run es st) = scripts st"
proof (induction es arbitrary: st)
  case Nil
  then show ?case by simp
next
  case (Cons e es)
  from loader_step_keeps [OF Cons.prems, of e] Cons.IH [of "loader_step e st"]
  show ?case by simp
qed

lemma loader_run_rejected:
  "googleMapsPromise st = Some p \<Longrightarrow> promises st ! p = Rejected \<Longrightarrow>
   promises (loader_run es st) ! p = Rejected"
proof (induction es arbitrary: st)
  case Nil
  then show ?case by simp
next
  case (Cons e es)
  have "googleMapsPromise (loader_step e st) = Some p"
    using loader_step_keeps [OF Cons.prems(1)] by simp
  moreover have "promises (loader_step e st) ! p = Rejected"
    using loader_step_rejected [OF Cons.prems] .
  ultimately show ?case using Cons.IH by simp
qed

lemma failedLoader_eq: "failedLoader = \<lparr> googleMapsPromise = Some 0, promises = [Rejected],
  scripts = [''https://maps.googleapis.com/maps/api/js?key=key-one&libraries=places''], windowGoogleMaps = False \<rparr>"
  by (simp add: failedLoader_def loadGoogleMapsScript_def initialLoader_def loader_step_def
      scriptPending_def settlePromise_def)

subsection \<open>The scenarios, evaluated\<close>

lemmas eval_defs = step_def handle_def commitEffect_def mountInput_def issueRequests_def
  detail_data_def detail_key_def suggestion_key_def useSWR_def queryKey_def setAddress_def
  committed_def swr_request_def swr_settle_def onChange_def onFocus_def onClear_def
  onPredictionClick_def predictions_def isSuggestionsLoading_def suggestionFetcher_def
  detailFetcher_def fetchPlaceDetails_def initialWidget_def empty_cache_def emptyAddress_def
  Let_def

lemma addressOfResult_amphi: "addressOfResult amphiResult = amphiAddress"
  by (simp add: addressOfResult_def amphiResult_def amphiAddress_def getAddressComponent_def
      component_name_def or_empty_def or_zero_def geometry_lat_def geometry_lng_def)

lemma typedAmphi_eq:
  "typedAmphi =
     \<lparr> address = emptyAddress, searchInput = ''1600 Amphi'', committedLog = [],
       selectedPlaceId = '''', isLocating = False, isOpen = True,
       debouncedSearchInput = ''1600 Amphi'', showInlineError = True,
       suggestionCache =
         \<lparr> cached = (\<lambda>k. None), failed = (\<lambda>k. False),
           inflight = (\<lambda>k. False)(''1600 Amphi'' := True), requested = [''1600 Amphi''] \<rparr>,
       detailCache = empty_cache \<rparr>"
  by (simp add: typedAmphi_def eval_defs)

lemma listedAmphi_eq:
  "listedAmphi =
     \<lparr> address = emptyAddress, searchInput = ''1600 Amphi'', committedLog = [],
       selectedPlaceId = '''', isLocating = False, isOpen = True,
       debouncedSearchInput = ''1600 Amphi'', showInlineError = True,
       suggestionCache =
         \<lparr> cached = (\<lambda>k. None)(''1600 Amphi'' := Some [amphiSuggestion]),
           failed = (\<lambda>k. False), inflight = (\<lambda>k. False),
           requested = [''1600 Amphi''] \<rparr>,
       detailCache = empty_cache \<rparr>"
  by (simp add: listedAmphi_def typedAmphi_eq step_SuggestionSettled swr_settle_def
      suggestionFetcher_def amphiPrediction_def amphiSuggestion_def fun_upd_idem)

lemma listedAmphi_facts:
  "predictions listedAmphi = [amphiSuggestion]" "\<not> isSuggestionsLoading listedAmphi"
  "\<not> committed listedAmphi" "isOpen listedAmphi" "synced listedAmphi"
  "suggestion_key listedAmphi = Some ''1600 Amphi''" "detail_key listedAmphi = None"
  by (simp_all add: listedAmphi_eq predictions_def isSuggestionsLoading_def suggestion_key_def
      detail_key_def queryKey_def useSWR_def committed_def emptyAddress_def synced_def
      detail_data_def)

lemma clickedAmphi_eq:
  "clickedAmphi =
     \<lparr> address = emptyAddress,
       searchInput = ''1600 Amphitheatre Parkway, Mountain View, CA, USA'', committedLog = [],
       selectedPlaceId = ''ChIJ2eUgeAK6j4ARbn5u_wAGqWA'', isLocating = False, isOpen = False,
       debouncedSearchInput = ''1600 Amphi'', showInlineError = True,
       suggestionCache =
         \<lparr> cached = (\<lambda>k. None)(''1600 Amphi'' := Some [amphiSuggestion]),
           failed = (\<lambda>k. False), inflight = (\<lambda>k. False),
           requested = [''1600 Amphi''] \<rparr>,
       detailCache =
         \<lparr> cached = (\<lambda>k. None), failed = (\<lambda>k. False),
           inflight = (\<lambda>k. False)(''ChIJ2eUgeAK6j4ARbn5u_wAGqWA'' := True),
           requested = [''ChIJ2eUgeAK6j4ARbn5u_wAGqWA''] \<rparr> \<rparr>"
  by (simp add: clickedAmphi_def listedAmphi_eq eval_defs amphiSuggestion_def)

lemma committedAmphi_eq:
  "committedAmphi =
     \<lparr> address = amphiAddress,
       searchInput = ''1600 Amphitheatre Parkway, Mountain View, CA, USA'',
       committedLog = [amphiAddress],
       selectedPlaceId = ''ChIJ2eUgeAK6j4ARbn5u_wAGqWA'', isLocating = False, isOpen = False,
       debouncedSearchInput = ''1600 Amphi'', showInlineError = True,
       suggestionCache =
         \<lparr> cached = (\<lambda>k. None)(''1600 Amphi'' := Some [amphiSuggestion]),
           failed = (\<lambda>k. False), inflight = (\<lambda>k. False),
           requested = [''1600 Amphi''] \<rparr>,
       detailCache =
         \<lparr> cached = (\<lambda>k. None)(''ChIJ2eUgeAK6j4ARbn5u_wAGqWA'' := Some amphiAddress),
           failed = (\<lambda>k. False), inflight = (\<lambda>k. False),
           requested = [''ChIJ2eUgeAK6j4ARbn5u_wAGqWA''] \<rparr> \<rparr>"
  by (simp add: committedAmphi_def clickedAmphi_eq step_def handle_def commitEffect_def
      mountInput_def issueRequests_def detail_data_def detail_key_def suggestion_key_def
      useSWR_def queryKey_def setAddress_def committed_def swr_settle_def detailFetcher_def
      fetchPlaceDetails_def addressOfResult_amphi emptyAddress_def Let_def fun_upd_idem)

lemma committedAmphi_facts:
  "committed committedAmphi" "address committedAmphi = amphiAddress"
  "inputValue committedAmphi = ''1600 Amphitheatre Parkway, Mountain View, CA, USA''"
  "formattedAddress (address committedAmphi) =
     ''1600 Amphitheatre Pkwy, Mountain View, CA 94043, USA''"
  by (simp_all add: committedAmphi_eq committed_def amphiAddress_def inputValue_def)

subsection \<open>Selection and commit\<close>

lemma click_handled:
  assumes "\<not> committed w" and "isOpen w" and "\<not> isSuggestionsLoading w"
    and "p \<in> set (predictions w)"
  shows "handle (ClickPrediction p) w =
     w\<lparr> searchInput := text_text p, selectedPlaceId := place p, isOpen := False \<rparr>"
  using assms by (simp add: handle_def onPredictionClick_def)

lemma synced_commitEffect: "synced old \<Longrightarrow> address new = address old \<Longrightarrow>
  synced (commitEffect old new)"
  by (auto simp: synced_def commitEffect_def detail_data_setAddress setAddress_fields
      split: option.splits)

lemma synced_step:
  "synced w \<Longrightarrow> address (handle e w) = address w \<Longrightarrow> synced (step e w)"
proof -
  assume s: "synced w" and a: "address (handle e w) = address w"
  have "synced (commitEffect w (handle e w))"
    using s a by (rule synced_commitEffect)
  moreover have "detail_data (step e w) = detail_data (commitEffect w (handle e w))"
    by (rule detail_data_cong) (simp_all add: step_fields commitEffect_fields)
  ultimately show ?thesis
    by (simp add: synced_def step_fields split: option.splits)
qed

lemma settled_address:
  assumes "synced w" and "selectedPlaceId w = k" and "k \<noteq> ''''"
    and "detailFetcher outcome = Inr a"
  shows "address (step (DetailSettled k outcome) w) = a"
proof -
  let ?h = "handle (DetailSettled k outcome) w"
  have d: "detail_data ?h = Some a"
    using assms(2,3,4)
    by (simp add: handle_def detail_data_def detail_key_def queryKey_def useSWR_def
        swr_settle_def)
  show ?thesis
  proof (cases "detail_data w = Some a")
    case True
    then have "address w = a"
      using assms(1) by (simp add: synced_def)
    moreover have "commitEffect w ?h = ?h"
      by (rule commitEffect_same) (simp add: d True)
    ultimately show ?thesis
      by (simp add: step_fields) (simp add: handle_def)
  next
    case False
    then show ?thesis
      by (simp add: step_fields commitEffect_def d setAddress_fields)
  qed
qed

lemma typedXyz_facts:
  "suggestion_key typedXyz = Some ''xyz''" "cached (suggestionCache typedXyz) ''xyz'' = None"
  "isOpen typedXyz" "\<not> committed typedXyz" "searchInput typedXyz = ''xyz''"
  by (simp_all add: typedXyz_def eval_defs)

lemma settled_predictions:
  assumes "suggestion_key w = Some k"
  shows "predictions (step (SuggestionSettled k PredictionsReject) w) =
           (case cached (suggestionCache w) k of None \<Rightarrow> [] | Some s \<Rightarrow> s)"
    and "predictions (step (SuggestionSettled k (PredictionsResolve ps)) w) =
           map (\<lambda>p. \<lparr> placeId = place_id p, place = place_id p,
                       text_text = description p \<rparr>) ps"
    and "\<not> isSuggestionsLoading (step (SuggestionSettled k outcome) w)"
  using assms
  by (cases outcome; simp add: step_SuggestionSettled predictions_def isSuggestionsLoading_def
      suggestion_key_def useSWR_def swr_settle_def suggestionFetcher_def)+

lemma overtaken_facts:
  "suggestion_key overtaken = Some ''1600 Amphi''" "detail_key overtaken = None"
  "predictions overtaken = [amphiSuggestion]" "address overtaken = emptyAddress"
  "inflight (suggestionCache overtaken) ''1600''"
  by (simp_all add: overtaken_def eval_defs amphiPrediction_def amphiSuggestion_def)

subsection \<open>Where committed addresses come from\<close>

lemma traced_mono: "traced R w \<Longrightarrow> (\<And>a. R a \<Longrightarrow> R' a) \<Longrightarrow> traced R' w"
  by (auto simp: traced_def)

lemma traced_data: "traced R w \<Longrightarrow> detail_data w = Some a \<Longrightarrow> R a"
  by (auto simp: traced_def detail_data_def useSWR_def split: option.splits)

lemma traced_cong:
  assumes "traced R w" and "cached (detailCache w') = cached (detailCache w)"
    and "committedLog w' = committedLog w" and "address w' = address w"
  shows "traced R w'"
  using assms by (simp add: traced_def)

lemma traced_setAddress:
  "traced R w \<Longrightarrow> a = emptyAddress \<or> R a \<Longrightarrow> traced R (setAddress a w)"
  by (auto simp: traced_def setAddress_fields)

lemma traced_commitEffect: "traced R new \<Longrightarrow> traced R (commitEffect old new)"
  by (auto simp: commitEffect_def traced_setAddress traced_data split: option.splits)

lemma traced_render:
  assumes "traced R h"
  shows "traced R (issueRequests w (mountInput w (commitEffect w h)))"
proof -
  have "traced R (commitEffect w h)"
    using assms by (rule traced_commitEffect)
  then show ?thesis
    by (rule traced_cong) (simp_all add: issueRequests_fields mountInput_fields)
qed

lemma traced_handle_settled:
  assumes "traced R w"
  shows "traced (\<lambda>a. R a \<or> detailFetcher outcome = Inr a) (handle (DetailSettled k outcome) w)"
  using assms
  by (cases "detailFetcher outcome")
    (auto simp: traced_def handle_def swr_settle_def)

lemma traced_handle_other:
  assumes "traced R w" and "\<And>k outcome. e \<noteq> DetailSettled k outcome"
  shows "traced R (handle e w)"
proof (cases e)
  case (ChangeInput v)
  show ?thesis
    using assms(1)
    by (simp add: ChangeInput handle_def onChange_def traced_setAddress)
      (auto simp: traced_def setAddress_fields)
next
  case ClickClear
  show ?thesis
    using assms(1)
    by (auto simp: ClickClear handle_def onClear_def traced_def setAddress_fields)
next
  case (DetailSettled k outcome)
  show ?thesis
    using assms(2) [of k outcome] DetailSettled by simp
next
  case (PositionSettled outcome)
  show ?thesis
    using assms(1)
    by (auto simp: PositionSettled handle_def positionCallback_def traced_def
        split: PositionOutcome.splits GeocodeOutcome.splits list.splits)
qed (use assms(1) in \<open>auto simp: traced_def handle_def onFocus_def onPredictionClick_def
      handleLocationDetect_def\<close>)

lemma resolvedBy_Cons:
  "resolvedBy (e # es) a =
     ((case e of DetailSettled k outcome \<Rightarrow> detailFetcher outcome = Inr a | _ \<Rightarrow> False)
      \<or> resolvedBy es a)"
  by (simp add: resolvedBy_def)

lemma traced_step: "traced R w \<Longrightarrow> traced (\<lambda>a. R a \<or> resolvedBy [e] a) (step e w)"
proof -
  assume t: "traced R w"
  have "traced (\<lambda>a. R a \<or> resolvedBy [e] a) (handle e w)"
  proof (cases "\<exists>k outcome. e = DetailSettled k outcome")
    case True
    then obtain k outcome where e: "e = DetailSettled k outcome" by blast
    show ?thesis
      using traced_handle_settled [OF t, of outcome k] by (simp add: e resolvedBy_def)
  next
    case False
    then have "traced R (handle e w)"
      using t by (intro traced_handle_other) auto
    then show ?thesis
      by (rule traced_mono) simp
  qed
  then show ?thesis
    unfolding step_def by (rule traced_render)
qed

lemma traced_run: "traced R w \<Longrightarrow> traced (\<lambda>a. R a \<or> resolvedBy es a) (run es w)"
proof (induction es arbitrary: w R)
  case Nil
  then show ?case by (simp add: resolvedBy_def)
next
  case (Cons e es)
  have "traced (\<lambda>a. R a \<or> resolvedBy [e] a) (step e w)"
    using Cons.prems by (rule traced_step)
  then have "traced (\<lambda>a. (R a \<or> resolvedBy [e] a) \<or> resolvedBy es a) (run es (step e w))"
    by (rule Cons.IH)
  then have "traced (\<lambda>a. R a \<or> resolvedBy (e # es) a) (run es (step e w))"
    by (rule traced_mono) (auto simp: resolvedBy_def)
  then show ?case by simp
qed

lemma traced_initial: "traced (\<lambda>a. False) (initialWidget b)"
  by (simp add: traced_def initialWidget_def empty_cache_def)

lemma resolvedBy_addressOfResult:
  "resolvedBy es a \<Longrightarrow>
   \<exists>k r. DetailSettled k (DetailsCallback (Some r) OK) \<in> set es \<and> a = addressOfResult r"
proof -
  assume "resolvedBy es a"
  then obtain e where e: "e \<in> set es"
    and c: "case e of DetailSettled k outcome \<Rightarrow> detailFetcher outcome = Inr a | _ \<Rightarrow> False"
    by (auto simp: resolvedBy_def list_ex_iff)
  from c obtain k outcome where d: "e = DetailSettled k outcome" "detailFetcher outcome = Inr a"
    by (cases e) simp_all
  from d(2) obtain r where "outcome = DetailsCallback (Some r) OK" "a = addressOfResult r"
    by (auto simp: detailFetcher_Inr)
  with e d(1) show ?thesis by blast
qed

lemma sessionEvents_run:
  "run sessionEvents (initialWidget True) = step ClickClear committedAmphi"
  by (simp add: sessionEvents_def committedAmphi_def clickedAmphi_def listedAmphi_def
      typedAmphi_def)

lemma sessionEvents_log:
  "committedLog (run sessionEvents (initialWidget True)) = [amphiAddress, emptyAddress]"
  "address (run sessionEvents (initialWidget True)) = emptyAddress"
proof -
  have h: "handle ClickClear committedAmphi =
     (setAddress emptyAddress (committedAmphi\<lparr> selectedPlaceId := '''' \<rparr>))\<lparr> searchInput := '''' \<rparr>"
    by (simp add: handle_def onClear_def committedAmphi_facts)
  have c: "commitEffect committedAmphi (handle ClickClear committedAmphi)
           = handle ClickClear committedAmphi"
    by (rule commitEffect_unselected) (simp add: h setAddress_fields)
  have l: "committedLog (step ClickClear committedAmphi) =
             committedLog (handle ClickClear committedAmphi)"
    and a: "address (step ClickClear committedAmphi) = address (handle ClickClear committedAmphi)"
    by (simp_all add: step_fields c)
  have "committedLog (handle ClickClear committedAmphi) = committedLog committedAmphi @ [emptyAddress]"
    by (simp add: h setAddress_fields)
  moreover have "committedLog committedAmphi = [amphiAddress]"
    by (simp add: committedAmphi_eq)
  ultimately show "committedLog (run sessionEvents (initialWidget True)) = [amphiAddress, emptyAddress]"
    by (simp add: sessionEvents_run l)
  have "address (handle ClickClear committedAmphi) = emptyAddress"
    by (simp add: h setAddress_fields)
  then show "address (run sessionEvents (initialWidget True)) = emptyAddress"
    by (simp add: sessionEvents_run a)
qed

subsection \<open>A burst of changes\<close>

lemma timerFires_early:
  "pendingTimer s = Some (due, v) \<Longrightarrow> t < due \<Longrightarrow> timerFires t s = s"
  by (simp add: timerFires_def)

lemma feed_burst:
  assumes "burst q t0 v0 cs" and "q = delayOrDefault delay" and "lastValue s = v0"
    and "pendingTimer s = Some (t0 + q, v0)"
  shows "emitted (feed delay cs s) = emitted s \<and>
    debouncedValue (feed delay cs s) = debouncedValue s \<and>
    pendingTimer (feed delay cs s) =
      Some (fst (last ((t0, v0) # cs)) + q, snd (last ((t0, v0) # cs)))"
  using assms
proof (induction cs arbitrary: t0 v0 s)
  case Nil
  then show ?case by simp
next
  case (Cons c cs)
  obtain t v where c: "c = (t, v)" by (cases c)
  from Cons.prems(1) have b: "t < t0 + q" "v \<noteq> v0" "burst q t v cs"
    by (simp_all add: c)
  let ?s = "useDebounce_render t v delay (timerFires t s)"
  have f: "timerFires t s = s"
    using Cons.prems(4) b(1) by (rule timerFires_early)
  have r: "?s = s\<lparr> lastValue := v, pendingTimer := Some (t + q, v) \<rparr>"
    using b(2) Cons.prems(2,3) by (simp add: f useDebounce_render_def)
  have "emitted (feed delay cs ?s) = emitted ?s \<and>
    debouncedValue (feed delay cs ?s) = debouncedValue ?s \<and>
    pendingTimer (feed delay cs ?s) =
      Some (fst (last ((t, v) # cs)) + q, snd (last ((t, v) # cs)))"
    using b(3) Cons.prems(2) by (rule Cons.IH) (simp_all add: r)
  then show ?case
    by (simp add: c r)
qed

lemma feed_first:
  assumes "nothingDueBy t1 s" and "v1 \<noteq> lastValue s"
  shows "useDebounce_render t1 v1 delay (timerFires t1 s) =
     s\<lparr> lastValue := v1, pendingTimer := Some (t1 + delayOrDefault delay, v1) \<rparr>"
proof -
  have "timerFires t1 s = s"
    using assms(1) by (auto simp: nothingDueBy_def timerFires_def split: option.splits)
  then show ?thesis
    using assms(2) by (simp add: useDebounce_render_def)
qed

lemma burst_emits_last:
  assumes "nothingDueBy t1 s" and "v1 \<noteq> lastValue s" and "burst (delayOrDefault delay) t1 v1 cs"
  shows "burstEmissions delay ((t1, v1) # cs) s = [snd (last ((t1, v1) # cs))]"
    and "pendingTimer (feed delay ((t1, v1) # cs) s) =
      Some (fst (last ((t1, v1) # cs)) + delayOrDefault delay, snd (last ((t1, v1) # cs)))"
    and "debouncedValue (feed delay ((t1, v1) # cs) s) = debouncedValue s"
proof -
  let ?s1 = "s\<lparr> lastValue := v1, pendingTimer := Some (t1 + delayOrDefault delay, v1) \<rparr>"
  let ?s2 = "feed delay cs ?s1"
  have e: "feed delay ((t1, v1) # cs) s = ?s2"
    using assms(1,2) by (simp add: feed_first)
  have b: "emitted ?s2 = emitted ?s1 \<and> debouncedValue ?s2 = debouncedValue ?s1 \<and>
    pendingTimer ?s2 =
      Some (fst (last ((t1, v1) # cs)) + delayOrDefault delay, snd (last ((t1, v1) # cs)))"
    using assms(3) by (rule feed_burst) simp_all
  then show "pendingTimer (feed delay ((t1, v1) # cs) s) =
      Some (fst (last ((t1, v1) # cs)) + delayOrDefault delay, snd (last ((t1, v1) # cs)))"
    and "debouncedValue (feed delay ((t1, v1) # cs) s) = debouncedValue s"
    by (simp_all only: e) simp_all
  from b have "emitted (quiesce ?s2) = emitted s @ [snd (last ((t1, v1) # cs))]"
    by (simp add: quiesce_def timerFires_def)
  then show "burstEmissions delay ((t1, v1) # cs) s = [snd (last ((t1, v1) # cs))]"
    by (simp only: burstEmissions_def e) simp
qed

lemma submit_one:
  "submitEmissions cur [v] = (if v \<noteq> '''' \<and> v \<noteq> cur then [v] else [])"
  by (simp add: queryKey_def)

lemma idleDebounce_eq:
  "idleDebounce = \<lparr> lastValue = '''', debouncedValue = '''', pendingTimer = None, emitted = [''''] \<rparr>"
  by (simp add: idleDebounce_def quiesce_def useDebounce_mount_def timerFires_def delayOrDefault_def)

lemma restingAb_eq:
  "restingAb =
     \<lparr> lastValue = ''ab'', debouncedValue = ''ab'', pendingTimer = None,
       emitted = ['''', ''ab''] \<rparr>"
  by (simp add: restingAb_def idleDebounce_eq quiesce_def timerFires_def useDebounce_render_def
      delayOrDefault_def)

subsection \<open>A change of the text in the input branch\<close>

lemma step_ChangeInput_uncommitted:
  assumes "\<not> committed w"
  shows "step (ChangeInput v) w = w\<lparr> searchInput := v \<rparr>"
proof -
  have h: "handle (ChangeInput v) w = w\<lparr> searchInput := v \<rparr>"
    using assms by (simp add: handle_def onChange_def)
  have "detail_data (w\<lparr> searchInput := v \<rparr>) = detail_data w"
    by (rule detail_data_cong) simp_all
  then show ?thesis
    by (simp add: step_def h step_cache_only)
qed

subsection \<open>The address follows the detail data in every reachable state\<close>

lemma handle_address:
  "address (handle e w) = address w \<or> selectedPlaceId (handle e w) = ''''"
proof (cases e)
  case (ChangeInput v)
  then show ?thesis by (simp add: handle_def onChange_def setAddress_fields)
next
  case FocusInput
  then show ?thesis by (simp add: handle_def onFocus_def)
next
  case (ClickPrediction p)
  then show ?thesis by (simp add: handle_def onPredictionClick_def)
next
  case ClickClear
  then show ?thesis by (simp add: handle_def onClear_def setAddress_fields)
next
  case (ClickLocate supported)
  then show ?thesis by (simp add: handle_def handleLocationDetect_def)
next
  case (PositionSettled outcome)
  then show ?thesis
    by (simp add: handle_def positionCallback_def
        split: PositionOutcome.split GeocodeOutcome.split list.split)
qed (simp_all add: handle_def)

lemma synced_step_any: "synced w \<Longrightarrow> synced (step e w)"
proof -
  assume s: "synced w"
  from handle_address [of e w] show ?thesis
  proof
    assume "address (handle e w) = address w"
    with s show ?thesis by (rule synced_step)
  next
    assume "selectedPlaceId (handle e w) = ''''"
    then have "detail_data (step e w) = None"
      by (simp add: detail_data_step detail_data_unselected)
    then show ?thesis by (simp add: synced_def)
  qed
qed

lemma synced_run: "synced w \<Longrightarrow> synced (run es w)"
  by (induction es arbitrary: w) (simp_all add: synced_step_any)

lemma synced_initial: "synced (initialWidget b)"
  by (simp add: synced_def detail_data_unselected initialWidget_def)

section \<open>The detail mapping on missing components\<close>

lemma getAddressComponent_undefined: "getAddressComponent None ty fmt = ''''"
  by (simp add: getAddressComponent_def)

lemma getAddressComponent_missing:
  "\<forall>c \<in> set cs. ty \<notin> set (types c) \<Longrightarrow> getAddressComponent (Some cs) ty fmt = ''''"
proof -
  assume "\<forall>c \<in> set cs. ty \<notin> set (types c)"
  then have "find (\<lambda>c. ty \<in> set (types c)) cs = None"
    by (simp add: find_None_iff)
  then show ?thesis
    by (simp add: getAddressComponent_def)
qed

lemma addressOfResult_no_components:
  "address_components r = None \<Longrightarrow>
   address1 (addressOfResult r) = '' '' \<and> city (addressOfResult r) = '''' \<and>
   region (addressOfResult r) = '''' \<and> postalCode (addressOfResult r) = '''' \<and>
   country (addressOfResult r) = ''''"
  by (simp add: addressOfResult_def getAddressComponent_def)

lemma addressOfResult_no_street:
  assumes "address_components r = Some cs"
    and "\<forall>c \<in> set cs. ''street_number'' \<notin> set (types c) \<and> ''route'' \<notin> set (types c)"
  shows "address1 (addressOfResult r) = '' ''"
  using assms by (simp add: addressOfResult_def getAddressComponent_missing)

lemma addressOfResult_defaults:
  "formatted_address r = None \<Longrightarrow> formattedAddress (addressOfResult r) = ''''"
  "geometry r = None \<Longrightarrow> lat (addressOfResult r) = 0 \<and> lng (addressOfResult r) = 0"
  by (simp_all add: addressOfResult_def or_empty_def or_zero_def geometry_lat_def
      geometry_lng_def)

section \<open>Verified properties\<close>

text \<open>
  C1. Responses that arrive, in any order, for keys other than the key a hook has
  at that moment are not applied: the predictions, the address, the calls of
  \<^verbatim>\<open>setAddress\<close> and everything rendered stay as they were. This holds for the
  suggestion lookup, keyed by the debounced text, and for the detail lookup, keyed
  by the selected identifier, also when the response to the older key is the last
  to arrive.
\<close>

theorem stale_responses_dropped:
  "\<forall>e \<in> set es. stale w e \<Longrightarrow>
   predictions (run es w) = predictions w \<and>
   address (run es w) = address w \<and>
   committedLog (run es w) = committedLog w \<and>
   detail_data (run es w) = detail_data w \<and>
   rendered (run es w) = rendered w"
proof -
  assume "\<forall>e \<in> set es. stale w e"
  then have a: "agrees (run es w) w"
    by (rule stale_run_agrees)
  from agrees_observed [OF a] a show ?thesis
    by (simp add: agrees_def)
qed

text \<open>
  The lookup for the text typed first is answered after the lookup for the text
  typed last, and a detail response for an identifier that is not selected arrives
  too: the list keeps the predictions of the last text and the address stays
  empty.
\<close>

theorem stale_responses_dropped_witness:
  "stale overtaken (lateResponses ! 0) \<and> stale overtaken (lateResponses ! 1) \<and>
   inflight (suggestionCache overtaken) ''1600'' \<and>
   predictions (run lateResponses overtaken) = [amphiSuggestion] \<and>
   address (run lateResponses overtaken) = emptyAddress"
proof -
  have s: "stale overtaken (lateResponses ! 0)" "stale overtaken (lateResponses ! 1)"
    by (simp_all add: lateResponses_def stale_def overtaken_facts)
  then have "\<forall>e \<in> set lateResponses. stale overtaken e"
    by (simp add: lateResponses_def)
  from stale_responses_dropped [OF this] s show ?thesis
    by (simp add: overtaken_facts)
qed

text \<open>
  C2, as the code has it. A suggestion lookup that fails, for a key without
  earlier data, leaves an empty list of predictions, and nothing marks the failure:
  what is rendered is what a successful lookup with no predictions renders. The
  component reads \<^verbatim>\<open>data\<close> and \<^verbatim>\<open>isLoading\<close> of the hook only, never its
  \<^verbatim>\<open>error\<close>.
\<close>

theorem failed_lookup_looks_empty:
  assumes "suggestion_key w = Some k" and "cached (suggestionCache w) k = None"
  shows "predictions (step (SuggestionSettled k PredictionsReject) w) = [] \<and>
    predictions (step (SuggestionSettled k (PredictionsResolve [])) w) = [] \<and>
    rendered (step (SuggestionSettled k PredictionsReject) w) =
      rendered (step (SuggestionSettled k (PredictionsResolve [])) w)"
proof -
  let ?f = "step (SuggestionSettled k PredictionsReject) w"
  let ?z = "step (SuggestionSettled k (PredictionsResolve [])) w"
  have p: "predictions ?f = []" "predictions ?z = []"
    using assms by (simp_all add: settled_predictions)
  have l: "\<not> isSuggestionsLoading ?f" "\<not> isSuggestionsLoading ?z"
    using assms(1) by (simp_all add: settled_predictions)
  have "suggestionList ?f = suggestionList ?z"
    using p l by (simp add: suggestionList_def) (simp add: step_SuggestionSettled committed_def)
  moreover have "inputValue ?f = inputValue ?z" "inlineError ?f = inlineError ?z"
    "isLocating ?f = isLocating ?z"
    by (simp_all add: step_SuggestionSettled inputValue_def inlineError_def committed_def)
  ultimately show ?thesis
    using p by (simp add: rendered_def)
qed

theorem failed_lookup_looks_empty_witness:
  "suggestion_key typedXyz = Some ''xyz'' \<and> cached (suggestionCache typedXyz) ''xyz'' = None \<and>
   predictions (step (SuggestionSettled ''xyz'' PredictionsReject) typedXyz) = [] \<and>
   rendered (step (SuggestionSettled ''xyz'' PredictionsReject) typedXyz) =
     rendered (step (SuggestionSettled ''xyz'' (PredictionsResolve [])) typedXyz)"
  using failed_lookup_looks_empty [OF typedXyz_facts(1,2)] by (simp add: typedXyz_facts)

text \<open>
  C2 as stated fails: after typing a text, the rejected lookup and the lookup
  that resolves with no predictions render the same open list with the message
  "No address found", so the failure is not distinguishable.
\<close>

theorem failed_lookup_indistinguishable_counterexample:
  "rendered (step (SuggestionSettled ''xyz'' PredictionsReject) typedXyz) =
     (''xyz'', Listing [] (Some ''No address found''), False, False) \<and>
   rendered (step (SuggestionSettled ''xyz'' (PredictionsResolve [])) typedXyz) =
     (''xyz'', Listing [] (Some ''No address found''), False, False)"
  by (simp add: step_SuggestionSettled rendered_def inputValue_def suggestionList_def
      inlineError_def typedXyz_def eval_defs)

text \<open>
  C3. A response in which street number and route are both missing gives an
  \<open>address1\<close> that is a single space, not the empty string, because the two names
  are joined by a separator that is always there; the sibling fields of the same
  response are the stated names, or empty when the component is missing.
\<close>

theorem addressOfResult_locality_address1:
  "address1 (addressOfResult localityResult) = '' '' \<and>
   address1 (addressOfResult localityResult) \<noteq> '''' \<and>
   city (addressOfResult localityResult) = ''Mountain View'' \<and>
   region (addressOfResult localityResult) = ''CA'' \<and>
   postalCode (addressOfResult localityResult) = '''' \<and>
   country (addressOfResult localityResult) = ''United States''"
  by (simp add: addressOfResult_def localityResult_def getAddressComponent_def
      component_name_def)

text \<open>
  C4, as the code has it. After a click on a listed prediction with a non-empty
  identifier and a successful detail resolution, the resolved address is the
  address; the committed branch is rendered exactly when its formatted address is
  not empty; and the input shows the label of the prediction, which the click
  stored as the search text. The formatted address is shown only when that label is
  empty.
\<close>

theorem selection_commits:
  assumes "synced w" and "\<not> committed w" and "isOpen w" and "\<not> isSuggestionsLoading w"
    and "p \<in> set (predictions w)" and "place p \<noteq> ''''"
    and "detailFetcher outcome = Inr a"
  shows "address (run [ClickPrediction p, DetailSettled (place p) outcome] w) = a \<and>
    committed (run [ClickPrediction p, DetailSettled (place p) outcome] w)
      = (formattedAddress a \<noteq> '''') \<and>
    inputValue (run [ClickPrediction p, DetailSettled (place p) outcome] w)
      = (if text_text p \<noteq> '''' then text_text p else formattedAddress a) \<and>
    selectedPlaceId (run [ClickPrediction p, DetailSettled (place p) outcome] w) = place p \<and>
    \<not> isOpen (run [ClickPrediction p, DetailSettled (place p) outcome] w)"
proof -
  let ?w1 = "step (ClickPrediction p) w"
  let ?w2 = "step (DetailSettled (place p) outcome) ?w1"
  have h: "handle (ClickPrediction p) w =
     w\<lparr> searchInput := text_text p, selectedPlaceId := place p, isOpen := False \<rparr>"
    using assms(2-5) by (rule click_handled)
  have s1: "synced ?w1"
    using assms(1) by (rule synced_step) (simp add: h)
  have f1: "selectedPlaceId ?w1 = place p" "searchInput ?w1 = text_text p" "\<not> isOpen ?w1"
    by (simp_all add: step_fields h)
  have a2: "address ?w2 = a"
    using s1 f1(1) assms(6,7) by (rule settled_address)
  have f2: "selectedPlaceId ?w2 = place p" "searchInput ?w2 = text_text p" "\<not> isOpen ?w2"
    using f1 by (simp_all add: step_fields handle_def)
  show ?thesis
    using a2 f2 by (simp add: committed_def inputValue_def)
qed

theorem selection_commits_witness:
  "synced listedAmphi \<and> \<not> committed listedAmphi \<and> isOpen listedAmphi \<and>
   \<not> isSuggestionsLoading listedAmphi \<and> amphiSuggestion \<in> set (predictions listedAmphi) \<and>
   place amphiSuggestion \<noteq> '''' \<and>
   detailFetcher (DetailsCallback (Some amphiResult) OK) = Inr amphiAddress \<and>
   address (run [ClickPrediction amphiSuggestion,
       DetailSettled (place amphiSuggestion) (DetailsCallback (Some amphiResult) OK)] listedAmphi)
     = amphiAddress \<and>
   committed (run [ClickPrediction amphiSuggestion,
       DetailSettled (place amphiSuggestion) (DetailsCallback (Some amphiResult) OK)] listedAmphi) \<and>
   inputValue (run [ClickPrediction amphiSuggestion,
       DetailSettled (place amphiSuggestion) (DetailsCallback (Some amphiResult) OK)] listedAmphi)
     = ''1600 Amphitheatre Parkway, Mountain View, CA, USA''"
proof -
  have f: "detailFetcher (DetailsCallback (Some amphiResult) OK) = Inr amphiAddress"
    by (simp add: detailFetcher_def fetchPlaceDetails_def addressOfResult_amphi)
  have p: "amphiSuggestion \<in> set (predictions listedAmphi)" "place amphiSuggestion \<noteq> ''''"
    "text_text amphiSuggestion = ''1600 Amphitheatre Parkway, Mountain View, CA, USA''"
    by (simp_all add: listedAmphi_facts) (simp_all add: amphiSuggestion_def)
  from selection_commits [OF listedAmphi_facts(5,3,4,2) p(1,2) f] f p
  show ?thesis
    by (simp add: listedAmphi_facts amphiAddress_def)
qed

text \<open>
  C4 as stated fails: in the session above the input shows the label of the
  prediction, which is not the formatted address of the resolved place.
\<close>

theorem selection_shows_label_counterexample:
  "committed committedAmphi \<and> address committedAmphi = amphiAddress \<and>
   inputValue committedAmphi = ''1600 Amphitheatre Parkway, Mountain View, CA, USA'' \<and>
   formattedAddress (address committedAmphi) =
     ''1600 Amphitheatre Pkwy, Mountain View, CA 94043, USA'' \<and>
   inputValue committedAmphi \<noteq> formattedAddress (address committedAmphi)"
  by (simp add: committedAmphi_facts amphiAddress_def)

text \<open>
  C5. Whatever the events, starting from the initial widget: every address passed
  to \<^verbatim>\<open>setAddress\<close>, and the address on display, is the canonical empty
  address or the whole record that the detail fetcher built from one response that
  resolved successfully among the events. No record is assembled from parts.
\<close>

theorem committed_addresses_whole:
  "(\<forall>a \<in> set (committedLog (run es (initialWidget b))). a = emptyAddress \<or> resolvedBy es a) \<and>
   (address (run es (initialWidget b)) = emptyAddress \<or>
    resolvedBy es (address (run es (initialWidget b))))"
  using traced_run [OF traced_initial, of es b] by (simp add: traced_def)

theorem committed_addresses_whole_witness:
  "committedLog (run sessionEvents (initialWidget True)) = [amphiAddress, emptyAddress] \<and>
   resolvedBy sessionEvents amphiAddress \<and> amphiAddress \<noteq> emptyAddress \<and>
   address (run sessionEvents (initialWidget True)) = emptyAddress"
proof -
  have n: "amphiAddress \<noteq> emptyAddress"
    by (simp add: amphiAddress_def emptyAddress_def)
  from committed_addresses_whole [of sessionEvents True] n show ?thesis
    by (simp add: sessionEvents_log)
qed

text \<open>
  C6. A detail resolution that fails, because the provider throws, the status is
  not \<open>OK\<close> or the result is null, leaves the address and the calls of
  \<^verbatim>\<open>setAddress\<close> as they were; the widget does not change branch, and the search
  text, the selected identifier, the list and everything rendered are unchanged.
\<close>

theorem detail_failure_keeps_state:
  "detailFetcher outcome = Inl err \<Longrightarrow>
   address (step (DetailSettled k outcome) w) = address w \<and>
   committedLog (step (DetailSettled k outcome) w) = committedLog w \<and>
   committed (step (DetailSettled k outcome) w) = committed w \<and>
   searchInput (step (DetailSettled k outcome) w) = searchInput w \<and>
   selectedPlaceId (step (DetailSettled k outcome) w) = selectedPlaceId w \<and>
   isOpen (step (DetailSettled k outcome) w) = isOpen w \<and>
   rendered (step (DetailSettled k outcome) w) = rendered w"
proof -
  assume f: "detailFetcher outcome = Inl err"
  have s: "step (DetailSettled k outcome) w =
     w\<lparr> detailCache := swr_settle k (detailFetcher outcome) (detailCache w) \<rparr>"
    by (rule step_DetailSettled_same) (simp add: f detail_failure_data)
  show ?thesis
    by (simp add: s rendered_detailCache committed_def)
qed

theorem detail_failure_keeps_state_witness:
  "detailFetcher (DetailsCallback None NOT_FOUND) = Inl FailedToFetchPlaceDetails \<and>
   selectedPlaceId clickedAmphi = ''ChIJ2eUgeAK6j4ARbn5u_wAGqWA'' \<and>
   address (step (DetailSettled ''ChIJ2eUgeAK6j4ARbn5u_wAGqWA'' (DetailsCallback None NOT_FOUND))
     clickedAmphi) = emptyAddress \<and>
   committedLog (step (DetailSettled ''ChIJ2eUgeAK6j4ARbn5u_wAGqWA''
     (DetailsCallback None NOT_FOUND)) clickedAmphi) = [] \<and>
   \<not> committed (step (DetailSettled ''ChIJ2eUgeAK6j4ARbn5u_wAGqWA''
     (DetailsCallback None NOT_FOUND)) clickedAmphi)"
proof -
  have f: "detailFetcher (DetailsCallback None NOT_FOUND) = Inl FailedToFetchPlaceDetails"
    by (simp add: detailFetcher_fails)
  from detail_failure_keeps_state [OF f, of "''ChIJ2eUgeAK6j4ARbn5u_wAGqWA''" clickedAmphi] f
  show ?thesis
    by (simp add: clickedAmphi_eq committed_def emptyAddress_def)
qed

text \<open>
  C7, as the code has it. When the search text changes several times, each change
  arriving before the quiet period of the one before has passed, the debouncer
  calls \<^verbatim>\<open>setDebouncedValue\<close> once, with the last value, one quiet period after
  the last change, and the debounced text keeps its old value until then. That
  emission submits exactly one lookup, for the final string, when the string is
  not empty and differs from the debounced text before the burst; it submits none
  when the string is empty (the key is null) or is the debounced text already (the
  key does not change). Without a delay the quiet period is 500 milliseconds.
\<close>

theorem debounce_emits_last_only:
  assumes "nothingDueBy t1 s" and "v1 \<noteq> lastValue s" and "burst (delayOrDefault delay) t1 v1 cs"
    and "final = snd (last ((t1, v1) # cs))"
  shows "burstEmissions delay ((t1, v1) # cs) s = [final] \<and>
    pendingTimer (feed delay ((t1, v1) # cs) s) =
      Some (fst (last ((t1, v1) # cs)) + delayOrDefault delay, final) \<and>
    debouncedValue (feed delay ((t1, v1) # cs) s) = debouncedValue s \<and>
    burstLookups delay ((t1, v1) # cs) s =
      (if final \<noteq> '''' \<and> final \<noteq> debouncedValue s then [final] else []) \<and>
    delayOrDefault None = 500"
proof -
  note e = burst_emits_last [OF assms(1,2,3)]
  have "burstLookups delay ((t1, v1) # cs) s =
      (if final \<noteq> '''' \<and> final \<noteq> debouncedValue s then [final] else [])"
    unfolding burstLookups_def e(1) assms(4) [symmetric] by (rule submit_one)
  then show ?thesis
    using e by (simp add: assms(4) delayOrDefault_def)
qed

theorem debounce_emits_last_only_witness:
  "nothingDueBy 1000 idleDebounce \<and> ''1'' \<noteq> lastValue idleDebounce \<and>
   burst (delayOrDefault (Some 500)) 1000 ''1'' [(1100, ''12''), (1200, ''123'')] \<and>
   burstEmissions (Some 500) [(1000, ''1''), (1100, ''12''), (1200, ''123'')] idleDebounce
     = [''123''] \<and>
   pendingTimer (feed (Some 500) [(1000, ''1''), (1100, ''12''), (1200, ''123'')] idleDebounce)
     = Some (1700, ''123'') \<and>
   burstLookups (Some 500) [(1000, ''1''), (1100, ''12''), (1200, ''123'')] idleDebounce
     = [''123'']"
proof -
  have h: "nothingDueBy 1000 idleDebounce" "''1'' \<noteq> lastValue idleDebounce"
    "burst (delayOrDefault (Some 500)) 1000 ''1'' [(1100, ''12''), (1200, ''123'')]"
    by (simp_all add: idleDebounce_eq nothingDueBy_def delayOrDefault_def)
  from debounce_emits_last_only [OF h refl] h
  show ?thesis
    by (simp add: idleDebounce_eq delayOrDefault_def)
qed

text \<open>
  C7 as stated fails in two ways. Typing a character and deleting it within the
  quiet period emits the empty string, whose key is null, so no lookup is
  submitted. Typing a character after a text that was already looked up and
  deleting it within the quiet period emits that text again, the debounced text
  does not change, and no lookup is submitted either.
\<close>

theorem debounce_no_lookup_counterexample:
  "nothingDueBy 1000 idleDebounce \<and> ''a'' \<noteq> lastValue idleDebounce \<and>
   burst (delayOrDefault (Some 500)) 1000 ''a'' [(1100, '''')] \<and>
   burstEmissions (Some 500) [(1000, ''a''), (1100, '''')] idleDebounce = [''''] \<and>
   burstLookups (Some 500) [(1000, ''a''), (1100, '''')] idleDebounce = [] \<and>
   nothingDueBy 3000 restingAb \<and> ''abc'' \<noteq> lastValue restingAb \<and>
   debouncedValue restingAb = ''ab'' \<and>
   burst (delayOrDefault (Some 500)) 3000 ''abc'' [(3100, ''ab'')] \<and>
   burstEmissions (Some 500) [(3000, ''abc''), (3100, ''ab'')] restingAb = [''ab''] \<and>
   burstLookups (Some 500) [(3000, ''abc''), (3100, ''ab'')] restingAb = []"
  by (simp add: idleDebounce_eq restingAb_eq nothingDueBy_def delayOrDefault_def
      burstLookups_def burstEmissions_def quiesce_def timerFires_def useDebounce_render_def
      queryKey_def)

text \<open>
  C8, as the code has it. In the committed branch, emptying the input and clicking
  the clear button both leave the canonical empty address (every string empty,
  both coordinates zero), the empty identifier and the empty search text. In the
  input branch, where there is no clear button, emptying the input only empties
  the search text: the selected identifier, the address and everything else stay
  as they were.
\<close>

theorem clearing_by_branch:
  "(committed w \<longrightarrow> cleared (step (ChangeInput '''') w) \<and> cleared (step ClickClear w)) \<and>
   (\<not> committed w \<longrightarrow> step (ChangeInput '''') w = w\<lparr> searchInput := '''' \<rparr>)"
proof (intro conjI impI)
  assume c: "committed w"
  show "cleared (step (ChangeInput '''') w)"
    by (rule cleared_step) (simp_all add: handle_def onChange_def c setAddress_fields)
  show "cleared (step ClickClear w)"
    by (rule cleared_step) (simp_all add: handle_def onClear_def c setAddress_fields)
next
  assume "\<not> committed w"
  then show "step (ChangeInput '''') w = w\<lparr> searchInput := '''' \<rparr>"
    by (rule step_ChangeInput_uncommitted)
qed

theorem clearing_by_branch_witness:
  "committed committedAmphi \<and> address committedAmphi = amphiAddress \<and>
   cleared (step (ChangeInput '''') committedAmphi) \<and> cleared (step ClickClear committedAmphi) \<and>
   \<not> committed clickedAmphi \<and>
   searchInput (step (ChangeInput '''') clickedAmphi) = '''' \<and>
   selectedPlaceId (step (ChangeInput '''') clickedAmphi) = ''ChIJ2eUgeAK6j4ARbn5u_wAGqWA''"
proof -
  have n: "\<not> committed clickedAmphi"
    by (simp add: clickedAmphi_eq committed_def emptyAddress_def)
  have s: "selectedPlaceId clickedAmphi = ''ChIJ2eUgeAK6j4ARbn5u_wAGqWA''"
    by (simp add: clickedAmphi_eq)
  from clearing_by_branch [of committedAmphi] clearing_by_branch [of clickedAmphi] n s
  show ?thesis
    by (simp add: committedAmphi_facts)
qed

text \<open>
  C8 as stated fails: after a prediction was picked and before its details
  arrive, emptying the input leaves the identifier selected, so the state is not
  the reset one.
\<close>

theorem clearing_keeps_identifier_counterexample:
  "\<not> committed clickedAmphi \<and>
   selectedPlaceId (step (ChangeInput '''') clickedAmphi) = ''ChIJ2eUgeAK6j4ARbn5u_wAGqWA'' \<and>
   \<not> cleared (step (ChangeInput '''') clickedAmphi)"
proof -
  have n: "\<not> committed clickedAmphi"
    by (simp add: clickedAmphi_eq committed_def emptyAddress_def)
  have s: "selectedPlaceId clickedAmphi = ''ChIJ2eUgeAK6j4ARbn5u_wAGqWA''"
    by (simp add: clickedAmphi_eq)
  show ?thesis
    using n s by (simp add: step_ChangeInput_uncommitted cleared_def)
qed

text \<open>
  C9. After either callback of the position request, whatever the outcome
  (position error, reverse geocoding throwing, no result, a result),
  \<open>isLocating\<close> is false; without geolocation support it is left as it was. After
  a position error the list is as open as before, and the address, the calls of
  \<^verbatim>\<open>setAddress\<close> and the suggestion list are unchanged.
\<close>

theorem location_detection_exits:
  "isLocating (step (PositionSettled outcome) w) = False \<and>
   isLocating (step (ClickLocate False) w) = isLocating w \<and>
   isOpen (step (PositionSettled PositionError) w) = isOpen w \<and>
   address (step (PositionSettled PositionError) w) = address w \<and>
   committedLog (step (PositionSettled PositionError) w) = committedLog w \<and>
   suggestionList (step (PositionSettled PositionError) w) = suggestionList w"
proof -
  have 1: "isLocating (step (PositionSettled outcome) w) = False"
    by (simp add: step_fields handle_def positionCallback_isLocating)
  have 2: "isLocating (step (ClickLocate False) w) = isLocating w"
    by (simp add: step_fields handle_def handleLocationDetect_def)
  have 3: "isOpen (step (PositionSettled PositionError) w) = isOpen w"
    by (simp add: step_PositionError issueRequests_fields mountInput_fields)
  have 4: "address (step (PositionSettled PositionError) w) = address w"
    by (simp add: step_PositionError issueRequests_fields mountInput_fields)
  have 5: "committedLog (step (PositionSettled PositionError) w) = committedLog w"
    by (simp add: step_PositionError issueRequests_fields mountInput_fields)
  have m: "mountInput w (w\<lparr> isLocating := False \<rparr>) = w\<lparr> isLocating := False \<rparr>"
    by (simp add: mountInput_def committed_def)
  have i: "issueRequests w (w\<lparr> isLocating := False \<rparr>) = w\<lparr> isLocating := False \<rparr>"
    by (simp add: issueRequests_def detail_key_def suggestion_key_def committed_def)
  have 6: "suggestionList (step (PositionSettled PositionError) w) = suggestionList w"
    by (rule suggestionList_cong) (simp_all add: step_PositionError m i)
  from 1 2 3 4 5 6 show ?thesis by simp
qed

text \<open>
  C10. Once \<^verbatim>\<open>loadGoogleMapsScript\<close> has been called, every later call returns the
  promise of the first call and changes nothing, whatever key it is given and
  whatever happened in between; no second script is ever appended. In particular a
  rejected promise stays the cached one and stays rejected.
\<close>

theorem loadGoogleMapsScript_memoized:
  "loadGoogleMapsScript k1 st = (p, s1) \<Longrightarrow> s2 = loader_run es s1 \<Longrightarrow>
   loadGoogleMapsScript k2 s2 = (p, s2) \<and> scripts s2 = scripts s1 \<and>
   (promises s2 ! p = Rejected \<longrightarrow>
      promises (loader_run es' s2) ! p = Rejected \<and>
      scripts (loader_run es' s2) = scripts s1 \<and>
      loadGoogleMapsScript k3 (loader_run es' s2) = (p, loader_run es' s2))"
proof -
  assume a: "loadGoogleMapsScript k1 st = (p, s1)" and b: "s2 = loader_run es s1"
  have c1: "googleMapsPromise s1 = Some p"
    using a by (rule loadGoogleMapsScript_caches)
  have c2: "googleMapsPromise s2 = Some p" and d2: "scripts s2 = scripts s1"
    using loader_run_keeps [OF c1, of es] b by simp_all
  have c3: "googleMapsPromise (loader_run es' s2) = Some p"
    and d3: "scripts (loader_run es' s2) = scripts s2"
    using loader_run_keeps [OF c2, of es'] by simp_all
  show ?thesis
    using c2 d2 c3 d3 loader_run_rejected [OF c2, of es']
    by (simp add: loadGoogleMapsScript_cached)
qed

theorem loadGoogleMapsScript_memoized_witness:
  "loadGoogleMapsScript ''key-one'' initialLoader =
     (0, \<lparr> googleMapsPromise = Some 0, promises = [Pending],
           scripts = [''https://maps.googleapis.com/maps/api/js?key=key-one&libraries=places''],
           windowGoogleMaps = False \<rparr>) \<and>
   loadGoogleMapsScript ''key-two'' failedLoader = (0, failedLoader) \<and>
   promises failedLoader ! 0 = Rejected \<and>
   scripts (loader_run [Call ''key-three'', ScriptLoaded] failedLoader) =
     [''https://maps.googleapis.com/maps/api/js?key=key-one&libraries=places''] \<and>
   promises (loader_run [Call ''key-three'', ScriptLoaded] failedLoader) ! 0 = Rejected"
proof -
  have a: "loadGoogleMapsScript ''key-one'' initialLoader =
     (0, \<lparr> googleMapsPromise = Some 0, promises = [Pending],
           scripts = [''https://maps.googleapis.com/maps/api/js?key=key-one&libraries=places''],
           windowGoogleMaps = False \<rparr>)"
    by (simp add: loadGoogleMapsScript_def initialLoader_def)
  have b: "failedLoader = loader_run [ScriptFailed] \<lparr> googleMapsPromise = Some 0, promises = [Pending],
           scripts = [''https://maps.googleapis.com/maps/api/js?key=key-one&libraries=places''],
           windowGoogleMaps = False \<rparr>"
    by (simp add: failedLoader_def a)
  have r: "promises failedLoader ! 0 = Rejected"
    by (simp add: failedLoader_eq)
  from loadGoogleMapsScript_memoized [OF a b, of "''key-two''" "[Call ''key-three'', ScriptLoaded]" "''key-four''"] r a
  show ?thesis by simp
qed

end
